theory Spec2Isabelle
  imports Complex_Main "HOL-Library.Sublist"
begin

section \<open>zbeacon: LAN service announcement and discovery (src/pyre/zbeacon.py)\<close>

text \<open>
  The module has two classes.  \<open>ZBeacon\<close> is the caller-side handle: each method writes
  frames to a pipe.  \<open>ZBeaconAgent\<close> owns the UDP socket and runs the event loop; it
  reads multipart commands from the pipe, reads datagrams from the socket, and sends the
  transmit payload periodically.

  Python 3 is modelled.  Byte strings are \<open>string\<close> (a list of 8-bit characters).  The
  attributes of the agent object are the fields of the record \<open>agent\<close>; everything the
  agent does to the outside (log records, frames written to the pipe, socket calls,
  waits in the poller) is appended to the field \<open>trace\<close>, in program order.  Whether a
  socket call raises \<open>socket.error\<close> is decided by the environment: the field
  \<open>sock_fail\<close> lists the outcome of the coming socket calls (\<open>True\<close>: the call raises),
  one entry consumed per call, and a call succeeds once the list is used up.  The clock
  \<open>time.time()\<close> is an input of every function that reads it, as a real number of
  seconds; rounding of floats is not modelled.
\<close>

subsection \<open>Data\<close>

type_synonym bytes = string

definition BEACON_MAX :: nat where
  "BEACON_MAX = 255"

definition INTERVAL_DFLT :: real where
  "INTERVAL_DFLT = 1.0"

datatype error =
    IndexError | ValueError | UnicodeDecodeError | UnboundLocalError
  | AttributeError | TypeError | OSError

type_synonym 'a result = "error + 'a"

datatype level = DEBUG | ERROR | EXCEPTION

datatype sockopt =
    IP_MULTICAST_TTL | IP_MULTICAST_LOOP | IP_ADD_MEMBERSHIP
  | SO_REUSEADDR | SO_REUSEPORT | SO_BROADCAST

text \<open>
  An address object of the \<open>ipaddress\<close> library, by the two observations the module
  makes of it: \<open>str(a)\<close> and \<open>a.is_multicast\<close>.
\<close>

record ipaddr =
  ip_str :: string
  ip_is_multicast :: bool

text \<open>
  What the agent does to the outside.  \<open>Log\<close> carries the format string of the record
  (its arguments are not rendered); \<open>PipeSend f m\<close> is one frame written to the pipe,
  \<open>m\<close> being the flag \<open>zmq.SNDMORE\<close>; \<open>Poll ms\<close> is one wait in the poller with that
  timeout in milliseconds (negative: no timeout).
\<close>

datatype event =
    Log level string
  | PipeSend bytes bool
  | SocketNew
  | Setsockopt sockopt
  | InetAton string
  | Bind string nat
  | Sendto bytes string nat
  | Recvfrom nat
  | Poll real

record agent =
  p_port :: nat
  p_interval :: real
  p_enabled :: bool
  p_noecho :: bool
  p_terminated :: bool
  p_ping_at :: real
  transmit :: "bytes option"
  p_filter :: "bytes option"
  filter_pub :: "bytes option option"
  address :: "ipaddr option"
  network_address :: "ipaddr option"
  broadcast_address :: "ipaddr option"
  interface_name :: "string option"
  announce_address :: "ipaddr option"
  sock_fail :: "bool list"
  trace :: "event list"

text \<open>
  The fields \<open>p_x\<close> are the attributes \<open>self._x\<close>.  \<open>filter_pub\<close> is the attribute
  \<open>self.filter\<close> (no underscore), which does not exist (\<open>None\<close>) until the command
  UNSUBSCRIBE assigns Python's \<open>None\<close> to it (\<open>Some None\<close>).

  \<open>new_agent\<close>: the attribute defaults of \<open>ZBeaconAgent.__init__\<close>, lines 117 to 144,
  before the announce address is parsed and the interfaces are scanned.
\<close>

definition new_agent :: "nat \<Rightarrow> bool list \<Rightarrow> agent" where
  "new_agent port fails =
     \<lparr> p_port = port, p_interval = INTERVAL_DFLT, p_enabled = True, p_noecho = True,
       p_terminated = False, p_ping_at = 0, transmit = None, p_filter = None,
       filter_pub = None, address = None, network_address = None,
       broadcast_address = None, interface_name = None, announce_address = None,
       sock_fail = fails, trace = [] \<rparr>"

definition emit :: "event \<Rightarrow> agent \<Rightarrow> agent" where
  "emit e s = s\<lparr>trace := trace s @ [e]\<rparr>"

definition log :: "level \<Rightarrow> string \<Rightarrow> agent \<Rightarrow> agent" where
  "log l m s = emit (Log l m) s"

text \<open>Python truthiness of a value that is \<open>None\<close> or a byte string.\<close>

definition truthy :: "bytes option \<Rightarrow> bool" where
  "truthy v = (case v of None \<Rightarrow> False | Some b \<Rightarrow> b \<noteq> [])"

text \<open>The frames written to the pipe so far, the UDP datagrams handed to \<open>sendto\<close>, and
  the timeouts of the waits in the poller.\<close>

fun pipe_frames :: "event list \<Rightarrow> (bytes \<times> bool) list" where
  "pipe_frames [] = []"
| "pipe_frames (PipeSend f m # es) = (f, m) # pipe_frames es"
| "pipe_frames (e # es) = pipe_frames es"

fun datagrams :: "event list \<Rightarrow> bytes list" where
  "datagrams [] = []"
| "datagrams (Sendto d h p # es) = d # datagrams es"
| "datagrams (e # es) = datagrams es"

fun polls :: "event list \<Rightarrow> real list" where
  "polls [] = []"
| "polls (Poll t # es) = t # polls es"
| "polls (e # es) = polls es"

subsection \<open>Library functions on byte strings\<close>

text \<open>
  \<open>bytes.decode('UTF-8')\<close> raises \<open>UnicodeDecodeError\<close> unless the bytes are well-formed
  UTF-8 (no overlong form, no surrogate, nothing above U+10FFFF).  The decoded command
  is only compared with ASCII literals, so the model keeps the bytes and checks the form.
\<close>

definition cont :: "nat \<Rightarrow> bool" where
  "cont b = (128 \<le> b \<and> b \<le> 191)"

definition lead3 :: "nat \<Rightarrow> nat \<Rightarrow> bool" where
  "lead3 b c =
     ((b = 224 \<and> 160 \<le> c \<and> c \<le> 191) \<or> (225 \<le> b \<and> b \<le> 236 \<and> cont c) \<or>
      (b = 237 \<and> 128 \<le> c \<and> c \<le> 159) \<or> (238 \<le> b \<and> b \<le> 239 \<and> cont c))"

definition lead4 :: "nat \<Rightarrow> nat \<Rightarrow> bool" where
  "lead4 b c =
     ((b = 240 \<and> 144 \<le> c \<and> c \<le> 191) \<or> (241 \<le> b \<and> b \<le> 243 \<and> cont c) \<or>
      (b = 244 \<and> 128 \<le> c \<and> c \<le> 143))"

fun utf8_ok :: "nat list \<Rightarrow> bool" where
  "utf8_ok [] = True"
| "utf8_ok [b] = (b < 128)"
| "utf8_ok [b, c] = (if b < 128 then utf8_ok [c] else 194 \<le> b \<and> b \<le> 223 \<and> cont c)"
| "utf8_ok [b, c, d] =
     (if b < 128 then utf8_ok [c, d]
      else if 194 \<le> b \<and> b \<le> 223 then cont c \<and> utf8_ok [d]
      else lead3 b c \<and> cont d)"
| "utf8_ok (b # c # d # e # r) =
     (if b < 128 then utf8_ok (c # d # e # r)
      else if 194 \<le> b \<and> b \<le> 223 then cont c \<and> utf8_ok (d # e # r)
      else if 224 \<le> b \<and> b \<le> 239 then lead3 b c \<and> cont d \<and> utf8_ok (e # r)
      else lead4 b c \<and> cont d \<and> cont e \<and> utf8_ok r)"

definition decodable :: "bytes \<Rightarrow> bool" where
  "decodable b = utf8_ok (map of_char b)"

text \<open>
  \<open>int(b)\<close> on a byte string: ASCII whitespace around it is dropped, then an optional
  sign, then decimal digits, where single underscores may stand between digits.
  Anything else raises \<open>ValueError\<close> (\<open>None\<close> here).
\<close>

definition is_space :: "char \<Rightarrow> bool" where
  "is_space c = (of_char c \<in> {9, 10, 11, 12, 13, 32 :: nat})"

definition is_digit :: "char \<Rightarrow> bool" where
  "is_digit c = (48 \<le> (of_char c :: nat) \<and> (of_char c :: nat) \<le> 57)"

definition digit_val :: "char \<Rightarrow> int" where
  "digit_val c = int (of_char c) - 48"

definition strip :: "bytes \<Rightarrow> bytes" where
  "strip b = rev (dropWhile is_space (rev (dropWhile is_space b)))"

fun digits_ok :: "bytes \<Rightarrow> bool" where
  "digits_ok [] = False"
| "digits_ok [c] = is_digit c"
| "digits_ok (c # d # r) =
     (is_digit c \<and> (if d = CHR ''_'' then digits_ok r else digits_ok (d # r)))"

definition digits_value :: "bytes \<Rightarrow> int" where
  "digits_value b = foldl (\<lambda>a c. 10 * a + digit_val c) 0 (filter is_digit b)"

definition py_int :: "bytes \<Rightarrow> int option" where
  "py_int b =
     (case strip b of
        [] \<Rightarrow> None
      | c # r \<Rightarrow>
          if c = CHR ''-'' then (if digits_ok r then Some (- digits_value r) else None)
          else if c = CHR ''+'' then (if digits_ok r then Some (digits_value r) else None)
          else if digits_ok (c # r) then Some (digits_value (c # r)) else None)"

subsection \<open>The agent: command handling\<close>

text \<open>
  \<open>ZBeaconAgent.api_command\<close>, lines 318 to 350.  The multipart message read from the
  pipe is the argument \<open>cmds\<close>; \<open>now\<close> is what \<open>time.time()\<close> returns on line 334.
  \<open>cmds.pop(0)\<close> raises \<open>IndexError\<close> on an empty list.
\<close>

definition api_command :: "bytes list \<Rightarrow> real \<Rightarrow> agent \<Rightarrow> unit result \<times> agent" where
  "api_command cmds now s =
     (case cmds of
        [] \<Rightarrow> (Inl IndexError, s)
      | cmd # args \<Rightarrow>
          if \<not> decodable cmd then (Inl UnicodeDecodeError, s)
          else if cmd = ''INTERVAL'' then
            (case args of
               [] \<Rightarrow> (Inl IndexError, s)
             | a # _ \<Rightarrow>
                 (case py_int a of
                    None \<Rightarrow> (Inl ValueError, s)
                  | Some n \<Rightarrow> (Inr (), s\<lparr>p_interval := real_of_int n\<rparr>)))
          else if cmd = ''NOECHO'' then (Inr (), s\<lparr>p_noecho := True\<rparr>)
          else if cmd = ''PUBLISH'' then
            (case args of
               [] \<Rightarrow> (Inl IndexError, s)
             | a # _ \<Rightarrow> (Inr (), s\<lparr>transmit := Some a, p_ping_at := now\<rparr>))
          else if cmd = ''SILENCE'' then (Inr (), s\<lparr>transmit := None\<rparr>)
          else if cmd = ''SUBSCRIBE'' then
            (case args of
               [] \<Rightarrow> (Inl IndexError, s)
             | a # _ \<Rightarrow> (Inr (), s\<lparr>p_filter := Some a\<rparr>))
          else if cmd = ''UNSUBSCRIBE'' then (Inr (), s\<lparr>filter_pub := Some None\<rparr>)
          else if cmd = ''$TERM'' then
            (Inr (), emit (PipeSend ''OK'' False) (s\<lparr>p_terminated := True\<rparr>))
          else (Inr (), log DEBUG ''Unexpected API command {0}, {1}'' s))"

subsection \<open>The agent: receiving\<close>

text \<open>
  \<open>ZBeaconAgent.recv\<close>, lines 363 to 388.  The argument is what \<open>recvfrom\<close> does: it
  raises \<open>socket.error\<close>, or it returns a datagram and the sender's address (host and
  port); \<open>recvfrom(BEACON_MAX)\<close> returns at most \<open>BEACON_MAX\<close> bytes of the datagram.

  The handler of \<open>socket.error\<close> logs and does not return: the next statement reads the
  local variable \<open>addr\<close>, which the failed assignment never bound, so Python raises
  \<open>UnboundLocalError\<close>.
\<close>

datatype received = RecvError | Datagram bytes "string \<times> nat"

definition recv :: "received \<Rightarrow> agent \<Rightarrow> unit result \<times> agent" where
  "recv r s0 =
     (let s = emit (Recvfrom BEACON_MAX) s0 in
      case r of
        RecvError \<Rightarrow> (Inl UnboundLocalError, log EXCEPTION ''Exception while receiving'' s)
      | Datagram d addr \<Rightarrow>
          (let data = take BEACON_MAX d; peername = fst addr in
           if truthy (p_filter s) \<and> length (the (p_filter s)) < length data
              \<and> take (length (the (p_filter s))) data \<noteq> the (p_filter s)
           then (Inr (), log DEBUG ''Received beacon doesn't match filter, discarding'' s)
           else if p_noecho s \<and> transmit s = Some data then (Inr (), s)
           else (Inr (), emit (PipeSend data False) (emit (PipeSend peername True) s))))"

subsection \<open>The agent: socket initialisation and sending\<close>

text \<open>
  What the agent's start-up reads from the host: \<open>sys.platform\<close>, whether the socket
  module defines \<open>SO_REUSEPORT\<close>, the interfaces of \<open>netifaces\<close> (each name with the
  value of \<open>ifaddresses(name).get(AF_INET)\<close>, a list of dictionaries that may hold the
  keys "addr" and "netmask"), and the two parsers of the \<open>ipaddress\<close> library, which
  raise \<open>ValueError\<close> (\<open>None\<close> here) on a string they do not accept.
\<close>

record address_set =
  addr :: "string option"
  netmask :: "string option"

record iface =
  if_ip :: ipaddr
  if_network_address :: ipaddr
  if_broadcast_address :: ipaddr
  if_is_loopback :: bool

record env =
  platform :: string
  has_reuseport :: bool
  interfaces :: "(string \<times> address_set list option) list"
  ip_interface :: "string \<Rightarrow> iface option"
  ip_address :: "string \<Rightarrow> ipaddr option"

text \<open>\<open>str(a)\<close> for an attribute that holds an address object or \<open>None\<close>.\<close>

definition py_str :: "ipaddr option \<Rightarrow> string" where
  "py_str a = (case a of None \<Rightarrow> ''None'' | Some x \<Rightarrow> ip_str x)"

text \<open>One socket call: it is recorded, and the environment decides whether it raises.\<close>

definition sock_call :: "event \<Rightarrow> agent \<Rightarrow> unit result \<times> agent" where
  "sock_call e s =
     (case sock_fail s of
        [] \<Rightarrow> (Inr (), emit e s)
      | f # fs \<Rightarrow> (if f then Inl OSError else Inr (), emit e (s\<lparr>sock_fail := fs\<rparr>)))"

text \<open>Socket calls one after the other; the first that raises ends the sequence.\<close>

fun calls :: "event list \<Rightarrow> agent \<Rightarrow> unit result \<times> agent" where
  "calls [] s = (Inr (), s)"
| "calls (e # es) s =
     (case sock_call e s of (Inl x, s') \<Rightarrow> (Inl x, s') | (Inr u, s') \<Rightarrow> calls es s')"

definition and_then ::
  "(agent \<Rightarrow> unit result \<times> agent) \<Rightarrow> (agent \<Rightarrow> unit result \<times> agent) \<Rightarrow> agent \<Rightarrow> unit result \<times> agent"
where
  "and_then f g s = (case f s of (Inl x, s') \<Rightarrow> (Inl x, s') | (Inr u, s') \<Rightarrow> g s')"

text \<open>
  \<open>ZBeaconAgent._init_socket\<close>, lines 222 to 304, the body of the \<open>try\<close>.  In the
  multicast branch the inner \<open>try\<close> evaluates \<open>socket.self\<close>, which raises
  \<open>AttributeError\<close>, caught at once: no call is made there.  In the broadcast branch
  the inner \<open>try\<close> calls \<open>setsockopt\<close> when the module has \<open>SO_REUSEPORT\<close>.
\<close>

definition multicast_setup :: "agent \<Rightarrow> unit result \<times> agent" where
  "multicast_setup s =
     calls [Setsockopt IP_MULTICAST_TTL, Setsockopt IP_MULTICAST_LOOP,
            InetAton (py_str (announce_address s)),
            Setsockopt IP_ADD_MEMBERSHIP, Setsockopt SO_REUSEADDR,
            Bind (py_str (address s)) (p_port s)] s"

definition broadcast_bind :: "env \<Rightarrow> agent \<Rightarrow> unit result \<times> agent" where
  "broadcast_bind ev s0 =
     (let s = s0\<lparr>announce_address := broadcast_address s0\<rparr> in
      if prefix ''win'' (platform ev) then sock_call (Bind [] (p_port s)) s
      else if prefix ''darwin'' (platform ev) \<or> prefix ''freebsd'' (platform ev)
      then sock_call (Bind [] (p_port s)) s
      else sock_call (Bind (py_str (broadcast_address s)) (p_port s)) s)"

definition broadcast_setup :: "env \<Rightarrow> agent \<Rightarrow> unit result \<times> agent" where
  "broadcast_setup ev =
     and_then
       (calls ([Setsockopt SO_BROADCAST, Setsockopt SO_REUSEADDR]
               @ (if has_reuseport ev then [Setsockopt SO_REUSEPORT] else [])))
       (and_then (broadcast_bind ev)
          (\<lambda>s. (Inr (), log DEBUG ''Set up a broadcast beacon to {0}:{1}'' s)))"

text \<open>
  The whole of \<open>_init_socket\<close>.  \<open>self.announce_address.is_multicast\<close> raises
  \<open>AttributeError\<close> when the attribute holds \<open>None\<close>; the handler catches
  \<open>socket.error\<close> only.
\<close>

definition init_socket :: "env \<Rightarrow> agent \<Rightarrow> unit result \<times> agent" where
  "init_socket ev s =
     (case announce_address s of
        None \<Rightarrow> (Inl AttributeError, s)
      | Some a \<Rightarrow>
          (case (if ip_is_multicast a then multicast_setup s else broadcast_setup ev s) of
             (Inl x, s') \<Rightarrow>
               if x = OSError
               then (Inr (), log EXCEPTION ''Initializing of {0} raised an exception'' s')
               else (Inl x, s')
           | (Inr u, s') \<Rightarrow> (Inr (), s')))"

text \<open>
  \<open>ZBeaconAgent.send\<close>, lines 352 to 361.  \<open>sendto\<close> on \<open>None\<close> raises \<open>TypeError\<close>
  before anything is sent.
\<close>

definition sendto :: "agent \<Rightarrow> unit result \<times> agent" where
  "sendto s =
     (case transmit s of
        None \<Rightarrow> (Inl TypeError, s)
      | Some d \<Rightarrow> sock_call (Sendto d (py_str (announce_address s)) (p_port s)) s)"

definition send :: "env \<Rightarrow> agent \<Rightarrow> unit result \<times> agent" where
  "send ev s =
     (case sendto s of
        (Inr u, s1) \<Rightarrow> (Inr (), s1)
      | (Inl x, s1) \<Rightarrow>
          if x = OSError
          then and_then (init_socket ev) sendto
                 (log DEBUG ''Network seems gone, reinitialising the socket'' s1)
          else (Inl x, s1))"

subsection \<open>The agent: the event loop\<close>

text \<open>
  \<open>ZBeaconAgent.run\<close>, lines 390 to 420.  One \<open>tick\<close> is what one pass through the loop
  reads from outside: the four readings of the clock (line 401, line 334 inside
  \<open>api_command\<close>, line 413, line 415), the multipart message when the poller reports the
  pipe readable, and the outcome of \<open>recvfrom\<close> when it reports the socket readable.
\<close>

record tick =
  now_wait :: real
  now_cmd :: real
  now_due :: real
  now_sent :: real
  pipe_in :: "bytes list option"
  udp_in :: "received option"

text \<open>Lines 399 to 403: the timeout in seconds, \<open>-1\<close> when no payload is set.\<close>

definition wait_timeout :: "real \<Rightarrow> agent \<Rightarrow> real" where
  "wait_timeout now s =
     (if truthy (transmit s)
      then (if p_ping_at s - now < 0 then 0 else p_ping_at s - now)
      else - 1)"

definition poll :: "tick \<Rightarrow> agent \<Rightarrow> agent" where
  "poll t s = emit (Poll (wait_timeout (now_wait t) s * 1000)) s"

text \<open>Lines 413 to 415.\<close>

definition transmit_due :: "env \<Rightarrow> tick \<Rightarrow> agent \<Rightarrow> unit result \<times> agent" where
  "transmit_due ev t s =
     (if truthy (transmit s) \<and> p_ping_at s \<le> now_due t
      then and_then (send ev) (\<lambda>s'. (Inr (), s'\<lparr>p_ping_at := now_sent t + p_interval s'\<rparr>)) s
      else (Inr (), s))"

text \<open>Lines 399 to 415, for a wait in the poller that returns.\<close>

definition iteration :: "env \<Rightarrow> tick \<Rightarrow> agent \<Rightarrow> unit result \<times> agent" where
  "iteration ev t s =
     and_then (case pipe_in t of None \<Rightarrow> Pair (Inr ()) | Some cmds \<Rightarrow> api_command cmds (now_cmd t))
       (and_then (case udp_in t of None \<Rightarrow> Pair (Inr ()) | Some r \<Rightarrow> recv r)
          (transmit_due ev t))
       (poll t s)"

text \<open>
  The loop over the ticks that the outside provides.  It ends in one of three ways: the
  method returns (the termination flag was set), an exception leaves it, or it waits in
  the poller for ever: there is no further tick, or the timeout is negative (no timeout)
  and neither the pipe nor the socket becomes readable.
\<close>

datatype outcome = Returned agent | Raised error agent | Waiting agent

fun final :: "outcome \<Rightarrow> agent" where
  "final (Returned s) = s"
| "final (Raised x s) = s"
| "final (Waiting s) = s"

fun run_loop :: "env \<Rightarrow> tick list \<Rightarrow> agent \<Rightarrow> outcome" where
  "run_loop ev [] s = Waiting s"
| "run_loop ev (t # ts) s =
     (if wait_timeout (now_wait t) s < 0 \<and> pipe_in t = None \<and> udp_in t = None
      then Waiting (poll t s)
      else (case iteration ev t s of
              (Inl x, s') \<Rightarrow> Raised x s'
            | (Inr u, s') \<Rightarrow>
                if p_terminated s' then Returned (log DEBUG ''ZBeaconAgent terminated'' s')
                else run_loop ev ts s'))"

definition run :: "env \<Rightarrow> tick list \<Rightarrow> agent \<Rightarrow> outcome" where
  "run ev ts s = run_loop ev ts (log DEBUG ''ZBeacon runnning'' s)"

subsection \<open>The agent: start-up\<close>

text \<open>
  The loop over the interfaces, lines 155 to 210.  An interface is passed over when it
  has no IPv4 address, when its first dictionary with both keys has an empty address or
  netmask (or there is none), and when it is a loopback device; the first other
  interface is taken.  \<open>ipaddress.ip_interface\<close> may raise \<open>ValueError\<close>.
\<close>

fun scan :: "env \<Rightarrow> (string \<times> address_set list option) list \<Rightarrow> agent \<Rightarrow> unit result \<times> agent" where
  "scan ev [] s = (Inr (), s)"
| "scan ev ((name, inet) # rest) s0 =
     (let s = log DEBUG ''Checking out interface {0}.'' s0 in
      if inet = None \<or> inet = Some []
      then scan ev rest (log DEBUG ''No addresses found for interface {0}.'' s)
      else (case find (\<lambda>a. addr a \<noteq> None \<and> netmask a \<noteq> None) (the inet) of
              None \<Rightarrow>
                scan ev rest (log DEBUG ''Address or netmask not found for interface {0}.'' s)
            | Some a \<Rightarrow>
                if the (addr a) = [] \<or> the (netmask a) = []
                then scan ev rest
                       (log DEBUG ''Address or netmask not found for interface {0}.'' s)
                else (case ip_interface ev (the (addr a) @ ''/'' @ the (netmask a)) of
                        None \<Rightarrow> (Inl ValueError, s)
                      | Some i \<Rightarrow>
                          if if_is_loopback i
                          then scan ev rest
                                 (log DEBUG ''Interface {0} is a loopback device.'' s)
                          else (Inr (),
                                log DEBUG ''Interface name: {0}''
                                  (log DEBUG ''Broadcast: {0}''
                                    (log DEBUG ''Network: {0}''
                                      (log DEBUG ''Address: {0}''
                                        (s\<lparr>address := Some (if_ip i),
                                           network_address := Some (if_network_address i),
                                           broadcast_address := Some (if_broadcast_address i),
                                           interface_name := Some name\<rparr>))))))))"

text \<open>
  Lines 212 to 220: after the scan the constructor logs an error when no address was
  found, and in every case initialises the socket, writes \<open>str(self.address)\<close> to the
  pipe and enters the loop.
\<close>

definition startup :: "env \<Rightarrow> agent \<Rightarrow> unit result \<times> agent" where
  "startup ev =
     and_then (scan ev (interfaces ev))
       (and_then
          (\<lambda>s. (Inr (),
                (if address s = None then log ERROR ''No suitable interface found.'' else id)
                  (log DEBUG ''Finished scanning interfaces.'' s)))
          (and_then (init_socket ev)
             (\<lambda>s. (Inr (), emit (PipeSend (py_str (address s)) False) s))))"

text \<open>
  \<open>ZBeaconAgent.__init__\<close>: the socket is created (line 119), the attributes get their
  defaults, the announce address is parsed (line 146), then the start-up above and the
  loop.
\<close>

definition ZBeaconAgent_init :: "env \<Rightarrow> nat \<Rightarrow> string \<Rightarrow> bool list \<Rightarrow> tick list \<Rightarrow> outcome" where
  "ZBeaconAgent_init ev port announce_addr fails ts =
     (case sock_call SocketNew (new_agent port fails) of
        (Inl x, s) \<Rightarrow> Raised x s
      | (Inr u, s) \<Rightarrow>
          (case ip_address ev announce_addr of
             None \<Rightarrow> Raised ValueError s
           | Some a \<Rightarrow>
               (case startup ev (log DEBUG ''Available interfaces: {0}''
                                   (s\<lparr>announce_address := Some a\<rparr>)) of
                  (Inl x, s') \<Rightarrow> Raised x s'
                | (Inr u, s') \<Rightarrow> run ev ts s')))"

subsection \<open>The caller's handle\<close>

text \<open>
  \<open>ZBeacon.publish\<close> and \<open>ZBeacon.subscribe\<close>, lines 83 to 98: what each writes to the
  pipe and logs.  \<open>messages\<close> is how the pipe groups frames: a frame sent with
  \<open>SNDMORE\<close> is held back and delivered together with the frames up to the next one sent
  without it.  \<open>ZBeacon.__init__\<close> blocks for the first frame that the agent writes and
  keeps it as the host name.
\<close>

definition publish :: "bytes \<Rightarrow> event list" where
  "publish payload = [PipeSend ''PUBLISH'' True, PipeSend payload False]"

definition subscribe :: "bytes \<Rightarrow> event list" where
  "subscribe f =
     PipeSend ''SUBSCRIBE'' True
       # (if BEACON_MAX < length f then [Log DEBUG ''Filter size is too big'']
          else [PipeSend f False])"

fun messages :: "bytes list \<Rightarrow> (bytes \<times> bool) list \<Rightarrow> bytes list list" where
  "messages held [] = []"
| "messages held ((f, m) # r) =
     (if m then messages (held @ [f]) r else (held @ [f]) # messages [] r)"

definition hostname :: "outcome \<Rightarrow> string option" where
  "hostname agent_run =
     (case pipe_frames (trace (final agent_run)) of [] \<Rightarrow> None | (f, m) # r \<Rightarrow> Some f)"

subsection \<open>Observations and example hosts\<close>

text \<open>
  What one receive cycle did, seen from the pipe: it returned and wrote the sender's
  address and the data as one two-frame message, or it returned and wrote nothing.
\<close>

definition delivers :: "unit result \<times> agent \<Rightarrow> agent \<Rightarrow> string \<Rightarrow> bytes \<Rightarrow> bool" where
  "delivers r s peer data =
     (fst r = Inr () \<and>
      pipe_frames (trace (snd r)) = pipe_frames (trace s) @ [(peer, True), (data, False)])"

definition discards :: "unit result \<times> agent \<Rightarrow> agent \<Rightarrow> bool" where
  "discards r s = (fst r = Inr () \<and> pipe_frames (trace (snd r)) = pipe_frames (trace s))"

text \<open>
  Two hosts for the concrete runs below: a Linux machine with a loopback device and one
  Ethernet interface, and the same machine with the loopback device only.  The parsers
  know the strings that occur.
\<close>

definition the_ip :: "string \<Rightarrow> ipaddr" where
  "the_ip x = \<lparr> ip_str = x, ip_is_multicast = False \<rparr>"

definition parse_interface :: "string \<Rightarrow> iface option" where
  "parse_interface x =
     (if x = ''127.0.0.1/255.0.0.0''
      then Some \<lparr> if_ip = the_ip ''127.0.0.1'', if_network_address = the_ip ''127.0.0.0'',
                  if_broadcast_address = the_ip ''127.255.255.255'', if_is_loopback = True \<rparr>
      else if x = ''192.168.1.5/255.255.255.0''
      then Some \<lparr> if_ip = the_ip ''192.168.1.5'', if_network_address = the_ip ''192.168.1.0'',
                  if_broadcast_address = the_ip ''192.168.1.255'', if_is_loopback = False \<rparr>
      else None)"

definition parse_address :: "string \<Rightarrow> ipaddr option" where
  "parse_address x = (if x = ''255.255.255.255'' then Some (the_ip x) else None)"

definition lo :: "string \<times> address_set list option" where
  "lo = (''lo'', Some [\<lparr> addr = Some ''127.0.0.1'', netmask = Some ''255.0.0.0'' \<rparr>])"

definition eth0 :: "string \<times> address_set list option" where
  "eth0 = (''eth0'', Some [\<lparr> addr = Some ''192.168.1.5'', netmask = Some ''255.255.255.0'' \<rparr>])"

definition lan_host :: env where
  "lan_host = \<lparr> platform = ''linux'', has_reuseport = True, interfaces = [lo, eth0],
                ip_interface = parse_interface, ip_address = parse_address \<rparr>"

definition lonely_host :: env where
  "lonely_host = \<lparr> platform = ''linux'', has_reuseport = True, interfaces = [lo],
                   ip_interface = parse_interface, ip_address = parse_address \<rparr>"

text \<open>A pass through the loop at clock reading \<open>now\<close> with nothing readable, with a
  command, and with a datagram.\<close>

definition idle :: "real \<Rightarrow> tick" where
  "idle now = \<lparr> now_wait = now, now_cmd = now, now_due = now, now_sent = now,
               pipe_in = None, udp_in = None \<rparr>"

definition command :: "real \<Rightarrow> bytes list \<Rightarrow> tick" where
  "command now cmds = (idle now)\<lparr>pipe_in := Some cmds\<rparr>"

definition datagram :: "real \<Rightarrow> bytes \<Rightarrow> string \<Rightarrow> tick" where
  "datagram now d peer = (idle now)\<lparr>udp_in := Some (Datagram d (peer, 5670))\<rparr>"

subsection \<open>What a socket operation leaves alone\<close>

text \<open>
  \<open>socket_only s s'\<close>: from \<open>s\<close> to \<open>s'\<close> nothing changed but the socket's side: the
  flags, the payload, the filter, the schedule, the frames written to the pipe and the
  waits in the poller are the same, and the trace has only grown.
\<close>

fun is_socket_event :: "event \<Rightarrow> bool" where
  "is_socket_event (Log l m) = False"
| "is_socket_event (PipeSend f m) = False"
| "is_socket_event (Poll t) = False"
| "is_socket_event e = True"

definition socket_only :: "agent \<Rightarrow> agent \<Rightarrow> bool" where
  "socket_only s s' =
     (p_noecho s' = p_noecho s \<and> p_terminated s' = p_terminated s \<and> transmit s' = transmit s \<and>
      p_filter s' = p_filter s \<and> p_interval s' = p_interval s \<and> p_ping_at s' = p_ping_at s \<and>
      p_port s' = p_port s \<and> address s' = address s \<and>
      pipe_frames (trace s') = pipe_frames (trace s) \<and> polls (trace s') = polls (trace s) \<and>
      prefix (trace s) (trace s'))"

subsection \<open>Reading an outcome; the agent started on the example host\<close>

fun raised :: "outcome \<Rightarrow> error option" where
  "raised (Raised x s) = Some x"
| "raised r = None"

definition lan_agent :: agent where
  "lan_agent = final (ZBeaconAgent_init lan_host 5670 ''255.255.255.255'' [] [])"

fun waiting :: "outcome \<Rightarrow> bool" where
  "waiting (Waiting s) = True"
| "waiting r = False"

text \<open>The filter check of \<open>recv\<close> (lines 373 to 379) lets the data through.\<close>

definition passes_filter :: "agent \<Rightarrow> bytes \<Rightarrow> bool" where
  "passes_filter s data =
     (\<not> (truthy (p_filter s) \<and> length (the (p_filter s)) < length data
         \<and> take (length (the (p_filter s))) data \<noteq> the (p_filter s)))"

text \<open>
  The scan passes over an interface (one of the three \<open>continue\<close> of lines 166 to 198):
  it has no IPv4 address, or no dictionary with an address and a netmask that are both
  non-empty, or it is a loopback device.  An interface that is not passed over qualifies.
\<close>

definition skipped :: "env \<Rightarrow> string \<times> address_set list option \<Rightarrow> bool" where
  "skipped ev i =
     (case snd i of
        None \<Rightarrow> True
      | Some sets \<Rightarrow>
          sets = [] \<or>
          (case find (\<lambda>a. addr a \<noteq> None \<and> netmask a \<noteq> None) sets of
             None \<Rightarrow> True
           | Some a \<Rightarrow>
               the (addr a) = [] \<or> the (netmask a) = [] \<or>
               (case ip_interface ev (the (addr a) @ ''/'' @ the (netmask a)) of
                  None \<Rightarrow> False
                | Some x \<Rightarrow> if_is_loopback x)))"

text \<open>
  A tick brings a PUBLISH command with a non-empty payload; and two states of the agent
  that both have no payload set (\<open>None\<close> or the empty byte string) and agree on the
  termination flag.
\<close>

definition nonempty_publish :: "tick \<Rightarrow> bool" where
  "nonempty_publish t =
     (case pipe_in t of
        None \<Rightarrow> False
      | Some cmds \<Rightarrow>
          (case cmds of
             [] \<Rightarrow> False
           | c # args \<Rightarrow> (case args of [] \<Rightarrow> False | p # r \<Rightarrow> c = ''PUBLISH'' \<and> p \<noteq> [])))"

definition silent :: "agent \<Rightarrow> agent \<Rightarrow> bool" where
  "silent a b = (\<not> truthy (transmit a) \<and> \<not> truthy (transmit b) \<and> p_terminated a = p_terminated b)"

text \<open>
  A tick brings a zero-length datagram; and two states that both have no payload set and
  agree on the termination flag, the filter and the echo-suppression flag.
\<close>

definition empty_datagram :: "tick \<Rightarrow> bool" where
  "empty_datagram t =
     (case udp_in t of
        None \<Rightarrow> False
      | Some r \<Rightarrow> (case r of RecvError \<Rightarrow> False | Datagram d a \<Rightarrow> d = []))"

definition alike :: "agent \<Rightarrow> agent \<Rightarrow> bool" where
  "alike a b = (silent a b \<and> p_filter a = p_filter b \<and> p_noecho a = p_noecho b)"

section \<open>Properties\<close>

subsection \<open>Basic facts\<close>

lemma pipe_frames_append: "pipe_frames (xs @ ys) = pipe_frames xs @ pipe_frames ys"
  by (induction xs rule: pipe_frames.induct) simp_all

lemma datagrams_append: "datagrams (xs @ ys) = datagrams xs @ datagrams ys"
  by (induction xs rule: datagrams.induct) simp_all

lemma polls_append: "polls (xs @ ys) = polls xs @ polls ys"
  by (induction xs rule: polls.induct) simp_all

lemma subscribe_sets_filter:
  "api_command [''SUBSCRIBE'', F] now s = (Inr (), s\<lparr>p_filter := Some F\<rparr>)"
  by (simp add: api_command_def decodable_def)

lemma unsubscribe_sets_other_attribute:
  "api_command [''UNSUBSCRIBE''] now s = (Inr (), s\<lparr>filter_pub := Some None\<rparr>)"
  by (simp add: api_command_def decodable_def)

lemma longer_mismatch:
  "length F < length D \<Longrightarrow> (take (length F) D \<noteq> F) = (\<not> prefix F D)"
  by (metis append_take_drop_id prefix_def append_eq_conv_conj)

text \<open>Socket initialisation and sending touch the socket's side of the state only.\<close>

lemma socket_only_refl: "socket_only s s"
  by (simp add: socket_only_def)

lemma socket_only_trans: "socket_only s s' \<Longrightarrow> socket_only s' s'' \<Longrightarrow> socket_only s s''"
  by (auto simp add: socket_only_def intro: prefix_order.trans)

lemma socket_only_log: "socket_only s (log l m s)"
  by (simp add: socket_only_def log_def emit_def pipe_frames_append polls_append)

lemma socket_only_sock_call: "is_socket_event e \<Longrightarrow> socket_only s (snd (sock_call e s))"
  by (cases e) (simp_all add: socket_only_def sock_call_def emit_def pipe_frames_append
      polls_append split: list.splits)

lemma socket_only_calls: "list_all is_socket_event es \<Longrightarrow> socket_only s (snd (calls es s))"
proof (induction es arbitrary: s)
  case Nil
  then show ?case by (simp add: socket_only_refl)
next
  case (Cons e es)
  obtain r s' where r: "sock_call e s = (r, s')" by (cases "sock_call e s")
  have a: "socket_only s s'" using socket_only_sock_call[of e s] Cons.prems r by simp
  show ?case
  proof (cases r)
    case (Inl x)
    then show ?thesis using r a by simp
  next
    case (Inr u)
    have "socket_only s' (snd (calls es s'))" using Cons by simp
    then show ?thesis using r Inr socket_only_trans[OF a] by simp
  qed
qed

lemma socket_only_and_then:
  assumes "\<And>s. socket_only s (snd (f s))" and "\<And>s. socket_only s (snd (g s))"
  shows "socket_only s (snd (and_then f g s))"
proof -
  obtain r s' where r: "f s = (r, s')" by (cases "f s")
  have a: "socket_only s s'" using assms(1)[of s] r by simp
  show ?thesis
  proof (cases r)
    case (Inl x)
    then show ?thesis using r a by (simp add: and_then_def)
  next
    case (Inr u)
    then show ?thesis using r assms(2)[of s'] socket_only_trans[OF a]
      by (simp add: and_then_def)
  qed
qed

lemma socket_only_multicast_setup: "socket_only s (snd (multicast_setup s))"
  unfolding multicast_setup_def by (rule socket_only_calls) simp

lemma socket_only_announce: "socket_only s (s\<lparr>announce_address := a\<rparr>)"
  by (simp add: socket_only_def)

lemma socket_only_broadcast_bind: "socket_only s (snd (broadcast_bind ev s))"
proof -
  have "socket_only s (snd (sock_call (Bind h p) (s\<lparr>announce_address := a\<rparr>)))" for h p a
    by (rule socket_only_trans[OF socket_only_announce socket_only_sock_call]) simp
  then show ?thesis
    by (simp add: broadcast_bind_def Let_def)
qed

lemma socket_only_broadcast_setup: "socket_only s (snd (broadcast_setup ev s))"
  unfolding broadcast_setup_def
  by (intro socket_only_and_then socket_only_calls socket_only_broadcast_bind)
     (simp_all add: socket_only_log)

lemma socket_only_init_socket: "socket_only s (snd (init_socket ev s))"
proof (cases "announce_address s")
  case None
  then show ?thesis by (simp add: init_socket_def socket_only_refl)
next
  case (Some a)
  let ?r = "if ip_is_multicast a then multicast_setup s else broadcast_setup ev s"
  have a: "socket_only s (snd ?r)"
    by (simp add: socket_only_multicast_setup socket_only_broadcast_setup)
  obtain r s' where r: "?r = (r, s')" by (cases ?r)
  have "socket_only s s'" using a r by simp
  then show ?thesis using Some r socket_only_trans[OF _ socket_only_log]
    by (auto simp add: init_socket_def split: sum.splits)
qed

lemma socket_only_sendto: "socket_only s (snd (sendto s))"
  by (simp add: sendto_def socket_only_refl socket_only_sock_call split: option.splits)

lemma socket_only_send: "socket_only s (snd (send ev s))"
proof -
  obtain r s1 where r: "sendto s = (r, s1)" by (cases "sendto s")
  have a: "socket_only s s1" using socket_only_sendto[of s] r by simp
  have b: "socket_only (log l m s1) (snd (and_then (init_socket ev) sendto (log l m s1)))" for l m
    by (intro socket_only_and_then socket_only_init_socket socket_only_sendto)
  have c: "socket_only s (snd (and_then (init_socket ev) sendto (log l m s1)))" for l m
    using socket_only_trans[OF socket_only_trans[OF a socket_only_log] b] .
  show ?thesis using r a c by (auto simp add: send_def split: sum.splits)
qed

text \<open>The definitions to unfold in a concrete run, and the agent after its start-up on the
  host with the Ethernet interface.\<close>

lemmas host_defs = lan_host_def lonely_host_def lo_def eth0_def parse_interface_def
  parse_address_def the_ip_def idle_def command_def datagram_def

lemmas start_defs = ZBeaconAgent_init_def startup_def run_def init_socket_def
  broadcast_setup_def broadcast_bind_def multicast_setup_def and_then_def sock_call_def
  new_agent_def emit_def log_def py_str_def INTERVAL_DFLT_def

lemmas loop_defs = iteration_def transmit_due_def send_def sendto_def poll_def wait_timeout_def
  truthy_def api_command_def recv_def decodable_def BEACON_MAX_def Let_def

lemma lan_start:
  "ZBeaconAgent_init lan_host 5670 ''255.255.255.255'' [] ts = run_loop lan_host ts lan_agent"
  by (simp add: lan_agent_def host_defs start_defs)

lemma lan_agent_eq:
  "lan_agent =
   \<lparr>p_port = 5670, p_interval = 1, p_enabled = True, p_noecho = True,
    p_terminated = False, p_ping_at = 0, transmit = None, p_filter = None,
    filter_pub = None,
    address = Some \<lparr>ip_str = ''192.168.1.5'', ip_is_multicast = False\<rparr>,
    network_address = Some \<lparr>ip_str = ''192.168.1.0'', ip_is_multicast = False\<rparr>,
    broadcast_address = Some \<lparr>ip_str = ''192.168.1.255'', ip_is_multicast = False\<rparr>,
    interface_name = Some ''eth0'',
    announce_address = Some \<lparr>ip_str = ''192.168.1.255'', ip_is_multicast = False\<rparr>,
    sock_fail = [],
    trace =
      [SocketNew, Log DEBUG ''Available interfaces: {0}'',
       Log DEBUG ''Checking out interface {0}.'',
       Log DEBUG ''Interface {0} is a loopback device.'',
       Log DEBUG ''Checking out interface {0}.'',
       Log DEBUG ''Address: {0}'', Log DEBUG ''Network: {0}'',
       Log DEBUG ''Broadcast: {0}'', Log DEBUG ''Interface name: {0}'',
       Log DEBUG ''Finished scanning interfaces.'', Setsockopt SO_BROADCAST,
       Setsockopt SO_REUSEADDR, Setsockopt SO_REUSEPORT,
       Bind ''192.168.1.255'' 5670,
       Log DEBUG ''Set up a broadcast beacon to {0}:{1}'',
       PipeSend ''192.168.1.5'' False, Log DEBUG ''ZBeacon runnning'']\<rparr>"
  by (simp add: lan_agent_def host_defs start_defs)

lemma lan_agent_facts:
  "transmit lan_agent = None" "sock_fail lan_agent = []" "\<not> p_terminated lan_agent"
  "datagrams (trace lan_agent) = []" "pipe_frames (trace lan_agent) = [(''192.168.1.5'', False)]"
  "polls (trace lan_agent) = []" "p_noecho lan_agent" "p_filter lan_agent = None"
  by (simp_all add: lan_agent_eq)

lemma publish_tick_sends:
  assumes "P \<noteq> []" and "sock_fail s = []"
  shows "datagrams (trace (final (run_loop ev [command now [''PUBLISH'', P]] s)))
           = datagrams (trace s) @ [P]"
  using assms by (simp add: host_defs loop_defs start_defs datagrams_append)

lemma py_int_1000: "py_int ''1000'' = Some 1000"
  by (simp add: py_int_def strip_def is_space_def is_digit_def digits_value_def digit_val_def)

text \<open>A socket call raises nothing but \<open>OSError\<close>, which \<open>_init_socket\<close> catches: with an
  announce address set, the initialisation returns.\<close>

lemma sock_call_error: "fst (sock_call e s) = Inl x \<Longrightarrow> x = OSError"
  by (auto simp add: sock_call_def split: list.splits if_splits)

lemma calls_error: "fst (calls es s) = Inl x \<Longrightarrow> x = OSError"
proof (induction es arbitrary: s)
  case Nil
  then show ?case by simp
next
  case (Cons e es)
  obtain r s' where r: "sock_call e s = (r, s')" by (cases "sock_call e s")
  show ?case
  proof (cases r)
    case (Inl y)
    then show ?thesis using Cons.prems r sock_call_error[of e s y] by simp
  next
    case (Inr u)
    then show ?thesis using Cons r by simp
  qed
qed

lemma and_then_error:
  assumes "\<And>s x. fst (f s) = Inl x \<Longrightarrow> x = OSError"
      and "\<And>s x. fst (g s) = Inl x \<Longrightarrow> x = OSError"
      and "fst (and_then f g s) = Inl x"
  shows "x = OSError"
proof -
  obtain r s' where r: "f s = (r, s')" by (cases "f s")
  show ?thesis
  proof (cases r)
    case (Inl y)
    then show ?thesis using assms(1)[of s y] assms(3) r by (simp add: and_then_def)
  next
    case (Inr u)
    then show ?thesis using assms(2)[of s' x] assms(3) r by (simp add: and_then_def)
  qed
qed

lemma broadcast_bind_error: "fst (broadcast_bind ev s) = Inl x \<Longrightarrow> x = OSError"
  by (auto simp add: broadcast_bind_def Let_def dest: sock_call_error split: if_splits)

lemma broadcast_setup_error: "fst (broadcast_setup ev s) = Inl x \<Longrightarrow> x = OSError"
  unfolding broadcast_setup_def
  by (erule and_then_error[rotated 2], erule calls_error,
      erule and_then_error[rotated 2], erule broadcast_bind_error, simp)

lemma init_socket_returns:
  assumes "announce_address s \<noteq> None"
  shows "fst (init_socket ev s) = Inr ()"
proof -
  obtain a where a: "announce_address s = Some a" using assms by auto
  let ?r = "if ip_is_multicast a then multicast_setup s else broadcast_setup ev s"
  obtain r s' where r: "?r = (r, s')" by (cases ?r)
  have m: "x = OSError" if "fst (multicast_setup s) = Inl x" for x
    using that unfolding multicast_setup_def by (rule calls_error)
  have "x = OSError" if "r = Inl x" for x
  proof (cases "ip_is_multicast a")
    case True
    then show ?thesis using that r m[of x] by simp
  next
    case False
    then show ?thesis using that r broadcast_setup_error[of ev s x] by simp
  qed
  then show ?thesis using a r by (cases r) (auto simp add: init_socket_def)
qed

text \<open>Socket initialisation hands no datagram to \<open>sendto\<close>.\<close>

lemma sock_call_no_datagram:
  "datagrams [e] = [] \<Longrightarrow> datagrams (trace (snd (sock_call e s))) = datagrams (trace s)"
  by (simp add: sock_call_def emit_def datagrams_append split: list.splits)

lemma calls_no_datagram:
  "list_all (\<lambda>e. datagrams [e] = []) es \<Longrightarrow>
   datagrams (trace (snd (calls es s))) = datagrams (trace s)"
proof (induction es arbitrary: s)
  case Nil
  then show ?case by simp
next
  case (Cons e es)
  obtain r s' where r: "sock_call e s = (r, s')" by (cases "sock_call e s")
  have a: "datagrams (trace s') = datagrams (trace s)"
    using sock_call_no_datagram[of e s] Cons.prems r by simp
  show ?case using Cons r a by (cases r) simp_all
qed

lemma and_then_no_datagram:
  assumes "\<And>s. datagrams (trace (snd (f s))) = datagrams (trace s)"
      and "\<And>s. datagrams (trace (snd (g s))) = datagrams (trace s)"
  shows "datagrams (trace (snd (and_then f g s))) = datagrams (trace s)"
proof -
  obtain r s' where r: "f s = (r, s')" by (cases "f s")
  have a: "datagrams (trace s') = datagrams (trace s)" using assms(1)[of s] r by simp
  show ?thesis using r a assms(2)[of s'] by (cases r) (simp_all add: and_then_def)
qed

lemma broadcast_bind_no_datagram:
  "datagrams (trace (snd (broadcast_bind ev s))) = datagrams (trace s)"
  by (simp add: broadcast_bind_def Let_def sock_call_no_datagram)

lemma init_socket_no_datagram:
  "datagrams (trace (snd (init_socket ev s))) = datagrams (trace s)"
proof (cases "announce_address s")
  case None
  then show ?thesis by (simp add: init_socket_def)
next
  case (Some a)
  have m: "datagrams (trace (snd (multicast_setup s))) = datagrams (trace s)"
    unfolding multicast_setup_def by (rule calls_no_datagram) simp
  have b: "datagrams (trace (snd (broadcast_setup ev s))) = datagrams (trace s)"
    unfolding broadcast_setup_def
    by (intro and_then_no_datagram calls_no_datagram broadcast_bind_no_datagram)
       (simp_all add: log_def emit_def datagrams_append)
  let ?r = "if ip_is_multicast a then multicast_setup s else broadcast_setup ev s"
  obtain r s' where r: "?r = (r, s')" by (cases ?r)
  have "datagrams (trace s') = datagrams (trace s)" using m b r by (auto split: if_splits)
  then show ?thesis using Some r
    by (auto simp add: init_socket_def log_def emit_def datagrams_append split: sum.splits)
qed

text \<open>With an announce address set, a send whose first \<open>sendto\<close> fails re-runs the
  initialisation, which returns, and calls \<open>sendto\<close> exactly once more.\<close>

lemma send_retries_once:
  assumes "announce_address s \<noteq> None" and "transmit s = Some d" and "sock_fail s = True # fs"
  shows "\<exists>s2. init_socket ev
                 (log DEBUG ''Network seems gone, reinitialising the socket''
                    (emit (Sendto d (py_str (announce_address s)) (p_port s))
                       (s\<lparr>sock_fail := fs\<rparr>))) = (Inr (), s2)
              \<and> send ev s = sendto s2
              \<and> datagrams (trace (snd (send ev s))) = datagrams (trace s) @ [d, d]"
proof -
  let ?s1 = "log DEBUG ''Network seems gone, reinitialising the socket''
               (emit (Sendto d (py_str (announce_address s)) (p_port s)) (s\<lparr>sock_fail := fs\<rparr>))"
  have 1: "sendto s = (Inl OSError, emit (Sendto d (py_str (announce_address s)) (p_port s))
                                     (s\<lparr>sock_fail := fs\<rparr>))"
    using assms by (simp add: sendto_def sock_call_def)
  have "announce_address ?s1 \<noteq> None" using assms(1) by (simp add: log_def emit_def)
  then have "fst (init_socket ev ?s1) = Inr ()" by (rule init_socket_returns)
  then obtain s2 where 2: "init_socket ev ?s1 = (Inr (), s2)"
    by (cases "init_socket ev ?s1") auto
  have 3: "send ev s = sendto s2" using 1 2 by (simp add: send_def and_then_def)
  have so: "socket_only ?s1 s2" using socket_only_init_socket[of ?s1 ev] 2 by simp
  then have t: "transmit s2 = Some d" using assms(2) by (simp add: socket_only_def log_def emit_def)
  have dg: "datagrams (trace s2) = datagrams (trace s) @ [d]"
    using init_socket_no_datagram[of ev ?s1] 2 by (simp add: log_def emit_def datagrams_append)
  have "datagrams (trace (snd (sendto s2))) = datagrams (trace s2) @ [d]"
    using t by (simp add: sendto_def sock_call_def emit_def datagrams_append split: list.splits)
  then show ?thesis using 2 3 dg by simp
qed

text \<open>What a receive cycle and the transmit step leave alone.\<close>

lemma recv_keeps:
  "p_terminated (snd (recv r s)) = p_terminated s"
  "p_noecho (snd (recv r s)) = p_noecho s"
  "transmit (snd (recv r s)) = transmit s"
  "p_filter (snd (recv r s)) = p_filter s"
  "datagrams (trace (snd (recv r s))) = datagrams (trace s)"
  "polls (trace (snd (recv r s))) = polls (trace s)"
  "prefix (trace s) (trace (snd (recv r s)))"
  by (cases r; simp add: recv_def Let_def emit_def log_def datagrams_append polls_append)+

lemma recv_frames:
  "pipe_frames (trace (snd (recv r s))) = pipe_frames (trace s) \<or>
   (\<exists>p d. pipe_frames (trace (snd (recv r s))) = pipe_frames (trace s) @ [(p, True), (d, False)])"
  by (cases r) (simp_all add: recv_def Let_def emit_def log_def pipe_frames_append)

lemma transmit_due_keeps:
  "p_terminated (snd (transmit_due ev t s)) = p_terminated s"
  "p_noecho (snd (transmit_due ev t s)) = p_noecho s"
  "transmit (snd (transmit_due ev t s)) = transmit s"
  "p_filter (snd (transmit_due ev t s)) = p_filter s"
  "pipe_frames (trace (snd (transmit_due ev t s))) = pipe_frames (trace s)"
  "polls (trace (snd (transmit_due ev t s))) = polls (trace s)"
  "prefix (trace s) (trace (snd (transmit_due ev t s)))"
proof -
  obtain r s' where r: "send ev s = (r, s')" by (cases "send ev s")
  have so: "socket_only s s'" using socket_only_send[of s ev] r by simp
  show "p_terminated (snd (transmit_due ev t s)) = p_terminated s"
    "p_noecho (snd (transmit_due ev t s)) = p_noecho s"
    "transmit (snd (transmit_due ev t s)) = transmit s"
    "p_filter (snd (transmit_due ev t s)) = p_filter s"
    "pipe_frames (trace (snd (transmit_due ev t s))) = pipe_frames (trace s)"
    "polls (trace (snd (transmit_due ev t s))) = polls (trace s)"
    "prefix (trace s) (trace (snd (transmit_due ev t s)))"
    using r so by (cases r; simp add: transmit_due_def and_then_def socket_only_def)+
qed

lemma terminate_command:
  "api_command [''$TERM''] now s = (Inr (), emit (PipeSend ''OK'' False) (s\<lparr>p_terminated := True\<rparr>))"
  by (simp add: api_command_def decodable_def)

text \<open>Nothing clears the echo-suppression flag.\<close>

lemma api_command_noecho: "p_noecho s \<Longrightarrow> p_noecho (snd (api_command cmds now s))"
  by (simp add: api_command_def emit_def log_def split: list.splits option.splits)

lemma iteration_noecho:
  assumes "p_noecho s"
  shows "p_noecho (snd (iteration ev t s))"
proof -
  let ?s1 = "poll t s"
  have 1: "p_noecho ?s1" using assms by (simp add: poll_def emit_def)
  obtain r2 s2 where r2:
    "(case pipe_in t of None \<Rightarrow> Pair (Inr ()) | Some cmds \<Rightarrow> api_command cmds (now_cmd t)) ?s1 = (r2, s2)"
    by (cases "(case pipe_in t of None \<Rightarrow> Pair (Inr ()) | Some cmds \<Rightarrow> api_command cmds (now_cmd t)) ?s1")
  have 2: "p_noecho s2"
  proof (cases "pipe_in t")
    case None
    then show ?thesis using r2 1 by auto
  next
    case (Some cmds)
    then have "s2 = snd (api_command cmds (now_cmd t) ?s1)" using r2 by simp
    then show ?thesis using api_command_noecho[OF 1] by simp
  qed
  obtain r3 s3 where r3: "(case udp_in t of None \<Rightarrow> Pair (Inr ()) | Some r \<Rightarrow> recv r) s2 = (r3, s3)"
    by (cases "(case udp_in t of None \<Rightarrow> Pair (Inr ()) | Some r \<Rightarrow> recv r) s2")
  have 3: "p_noecho s3"
  proof (cases "udp_in t")
    case None
    then show ?thesis using r3 2 by auto
  next
    case (Some r)
    then have "s3 = snd (recv r s2)" using r3 by simp
    then show ?thesis using 2 recv_keeps(2)[of r s2] by simp
  qed
  have 4: "p_noecho (snd (transmit_due ev t s3))" using 3 transmit_due_keeps(2)[of ev t s3] by simp
  show ?thesis using r2 r3 2 3 4
    by (cases r2; cases r3; simp add: iteration_def and_then_def)
qed

lemma run_loop_noecho: "p_noecho s \<Longrightarrow> p_noecho (final (run_loop ev ts s))"
proof (induction ts arbitrary: s)
  case Nil
  then show ?case by simp
next
  case (Cons t ts)
  obtain r s' where r: "iteration ev t s = (r, s')" by (cases "iteration ev t s")
  have n: "p_noecho s'" using iteration_noecho[OF Cons.prems, of ev t] r by simp
  show ?case using Cons r n
    by (cases r) (auto simp add: poll_def emit_def log_def)
qed

lemma scan_noecho: "p_noecho (snd (scan ev ifs s)) = p_noecho s"
  by (induction ev ifs s rule: scan.induct)
     (auto simp add: Let_def log_def emit_def split: option.splits)

lemma startup_noecho: "p_noecho (snd (startup ev s)) = p_noecho s"
proof -
  obtain r1 s1 where r1: "scan ev (interfaces ev) s = (r1, s1)" by (cases "scan ev (interfaces ev) s")
  have 1: "p_noecho s1 = p_noecho s" using scan_noecho[of ev "interfaces ev" s] r1 by simp
  let ?s2 = "(if address s1 = None then log ERROR ''No suitable interface found.'' else id)
                  (log DEBUG ''Finished scanning interfaces.'' s1)"
  have 2: "p_noecho ?s2 = p_noecho s" using 1 by (simp add: log_def emit_def)
  obtain r3 s3 where r3: "init_socket ev ?s2 = (r3, s3)" by (cases "init_socket ev ?s2")
  have 3: "p_noecho s3 = p_noecho s"
    using socket_only_init_socket[of ?s2 ev] r3 2 by (simp add: socket_only_def)
  show ?thesis using r1 r3 1 2 3
    by (cases r1; cases r3; simp add: startup_def and_then_def emit_def)
qed

lemma init_noecho: "p_noecho (final (ZBeaconAgent_init ev port ann fails ts))"
proof -
  obtain r0 s0 where r0: "sock_call SocketNew (new_agent port fails) = (r0, s0)"
    by (cases "sock_call SocketNew (new_agent port fails)")
  have 0: "p_noecho s0"
    using r0 by (auto simp add: sock_call_def new_agent_def emit_def split: list.splits)
  show ?thesis
  proof (cases r0)
    case (Inl x)
    then show ?thesis using r0 0 by (simp add: ZBeaconAgent_init_def)
  next
    case (Inr u)
    show ?thesis
    proof (cases "ip_address ev ann")
      case None
      then show ?thesis using r0 0 Inr by (simp add: ZBeaconAgent_init_def)
    next
      case (Some a)
      let ?s1 = "log DEBUG ''Available interfaces: {0}'' (s0\<lparr>announce_address := Some a\<rparr>)"
      have 1: "p_noecho ?s1" using 0 by (simp add: log_def emit_def)
      obtain r2 s2 where r2: "startup ev ?s1 = (r2, s2)" by (cases "startup ev ?s1")
      have 2: "p_noecho s2" using startup_noecho[of ev ?s1] r2 1 by simp
      have 3: "p_noecho (final (run ev ts s2))"
        unfolding run_def by (rule run_loop_noecho) (simp add: 2 log_def emit_def)
      show ?thesis using r0 Inr Some r2 2 3 by (cases r2) (simp_all add: ZBeaconAgent_init_def)
    qed
  qed
qed

lemma published_hello:
  "transmit (final (ZBeaconAgent_init lan_host 5670 ''255.255.255.255'' []
                      [command 0 [''PUBLISH'', ''HELLO'']])) = Some ''HELLO''"
  "p_filter (final (ZBeaconAgent_init lan_host 5670 ''255.255.255.255'' []
                      [command 0 [''PUBLISH'', ''HELLO'']])) = None"
  unfolding lan_start lan_agent_eq by (simp_all add: host_defs loop_defs start_defs)

text \<open>The scan over interfaces that are all passed over only logs; the trace only grows
  in the loop; the socket initialisation begins with its first \<open>setsockopt\<close>.\<close>

lemma scan_skipped:
  "list_all (skipped ev) ifs \<Longrightarrow>
   \<exists>ls. scan ev ifs s = (Inr (), s\<lparr>trace := trace s @ ls\<rparr>) \<and> pipe_frames ls = []"
proof (induction ifs arbitrary: s)
  case Nil
  have "scan ev [] s = (Inr (), s\<lparr>trace := trace s @ []\<rparr>)" by simp
  then show ?case by (metis pipe_frames.simps(1))
next
  case (Cons i ifs)
  obtain name inet where i: "i = (name, inet)" by (cases i)
  have sk: "skipped ev (name, inet)" and rest: "list_all (skipped ev) ifs"
    using Cons.prems i by simp_all
  have "\<exists>m. scan ev ((name, inet) # ifs) s
              = scan ev ifs (log DEBUG m (log DEBUG ''Checking out interface {0}.'' s))"
    using sk by (auto simp add: skipped_def Let_def split: option.splits)
  then obtain m where m: "scan ev ((name, inet) # ifs) s
              = scan ev ifs (log DEBUG m (log DEBUG ''Checking out interface {0}.'' s))" ..
  let ?s1 = "log DEBUG m (log DEBUG ''Checking out interface {0}.'' s)"
  obtain ls where ls: "scan ev ifs ?s1 = (Inr (), ?s1\<lparr>trace := trace ?s1 @ ls\<rparr>)"
    "pipe_frames ls = []"
    using Cons.IH[OF rest, of ?s1] by blast
  have "?s1\<lparr>trace := trace ?s1 @ ls\<rparr>
          = s\<lparr>trace := trace s @ ([Log DEBUG ''Checking out interface {0}.'', Log DEBUG m] @ ls)\<rparr>"
    by (simp add: log_def emit_def)
  moreover have "pipe_frames ([Log DEBUG ''Checking out interface {0}.'', Log DEBUG m] @ ls) = []"
    using ls(2) by simp
  ultimately show ?case using m ls(1) i by metis
qed

lemma pipe_frames_prefix: "prefix xs ys \<Longrightarrow> prefix (pipe_frames xs) (pipe_frames ys)"
  by (auto simp add: prefix_def pipe_frames_append)

lemma api_command_grows: "prefix (trace s) (trace (snd (api_command cmds now s)))"
  by (simp add: api_command_def emit_def log_def split: list.splits option.splits)

lemma iteration_grows: "prefix (trace s) (trace (snd (iteration ev t s)))"
proof -
  let ?s1 = "poll t s"
  have 1: "prefix (trace s) (trace ?s1)" by (simp add: poll_def emit_def)
  obtain r2 s2 where r2:
    "(case pipe_in t of None \<Rightarrow> Pair (Inr ()) | Some cmds \<Rightarrow> api_command cmds (now_cmd t)) ?s1 = (r2, s2)"
    by (cases "(case pipe_in t of None \<Rightarrow> Pair (Inr ()) | Some cmds \<Rightarrow> api_command cmds (now_cmd t)) ?s1")
  have "prefix (trace ?s1) (trace s2)"
  proof (cases "pipe_in t")
    case None
    then show ?thesis using r2 by auto
  next
    case (Some cmds)
    then have "s2 = snd (api_command cmds (now_cmd t) ?s1)" using r2 by simp
    then show ?thesis using api_command_grows by simp
  qed
  then have 2: "prefix (trace s) (trace s2)" using 1 prefix_order.trans by blast
  obtain r3 s3 where r3: "(case udp_in t of None \<Rightarrow> Pair (Inr ()) | Some r \<Rightarrow> recv r) s2 = (r3, s3)"
    by (cases "(case udp_in t of None \<Rightarrow> Pair (Inr ()) | Some r \<Rightarrow> recv r) s2")
  have "prefix (trace s2) (trace s3)"
  proof (cases "udp_in t")
    case None
    then show ?thesis using r3 by auto
  next
    case (Some r)
    then have "s3 = snd (recv r s2)" using r3 by simp
    then show ?thesis using recv_keeps(7)[of s2 r] by simp
  qed
  then have 3: "prefix (trace s) (trace s3)" using 2 prefix_order.trans by blast
  have 4: "prefix (trace s) (trace (snd (transmit_due ev t s3)))"
    using 3 transmit_due_keeps(7)[of s3 ev t] prefix_order.trans by blast
  show ?thesis using r2 r3 2 3 4
    by (cases r2; cases r3; simp add: iteration_def and_then_def)
qed

lemma run_loop_grows: "prefix (trace s) (trace (final (run_loop ev ts s)))"
proof (induction ts arbitrary: s)
  case Nil
  then show ?case by simp
next
  case (Cons t ts)
  obtain r s' where r: "iteration ev t s = (r, s')" by (cases "iteration ev t s")
  have g: "prefix (trace s) (trace s')" using iteration_grows[of s ev t] r by simp
  have h: "prefix (trace s) (trace (final (run_loop ev ts s')))"
    using g Cons.IH[of s'] prefix_order.trans by blast
  have l: "prefix (trace s) (trace (log DEBUG ''ZBeaconAgent terminated'' s'))"
    using g by (simp add: log_def emit_def)
  show ?case using r g h l by (cases r) (auto simp add: poll_def emit_def)
qed

lemma calls_first:
  assumes "list_all is_socket_event (e # es)"
  shows "e \<in> set (trace (snd (calls (e # es) s)))"
proof -
  obtain r s' where r: "sock_call e s = (r, s')" by (cases "sock_call e s")
  have m: "e \<in> set (trace s')"
    using r by (auto simp add: sock_call_def emit_def split: list.splits)
  have "socket_only s' (snd (calls es s'))" using assms by (simp add: socket_only_calls)
  then have "set (trace s') \<subseteq> set (trace (snd (calls es s')))"
    by (simp add: socket_only_def set_mono_prefix)
  then show ?thesis using r m by (cases r) auto
qed

lemma and_then_member:
  assumes "\<And>s. e \<in> set (trace (snd (f s)))" and "\<And>s. socket_only s (snd (g s))"
  shows "e \<in> set (trace (snd (and_then f g s)))"
proof -
  obtain r s' where r: "f s = (r, s')" by (cases "f s")
  have m: "e \<in> set (trace s')" using assms(1)[of s] r by simp
  have "set (trace s') \<subseteq> set (trace (snd (g s')))"
    using assms(2)[of s'] by (simp add: socket_only_def set_mono_prefix)
  then show ?thesis using r m by (cases r) (auto simp add: and_then_def)
qed

lemma init_socket_first_call:
  assumes "announce_address s = Some a"
  shows "Setsockopt SO_BROADCAST \<in> set (trace (snd (init_socket ev s))) \<or>
         Setsockopt IP_MULTICAST_TTL \<in> set (trace (snd (init_socket ev s)))"
proof -
  let ?r = "if ip_is_multicast a then multicast_setup s else broadcast_setup ev s"
  have m: "Setsockopt IP_MULTICAST_TTL \<in> set (trace (snd (multicast_setup s)))"
    unfolding multicast_setup_def by (rule calls_first) simp
  have b: "Setsockopt SO_BROADCAST \<in> set (trace (snd (broadcast_setup ev s)))"
    unfolding broadcast_setup_def
  proof (rule and_then_member)
    show "Setsockopt SO_BROADCAST \<in> set (trace (snd (calls ([Setsockopt SO_BROADCAST, Setsockopt SO_REUSEADDR]
               @ (if has_reuseport ev then [Setsockopt SO_REUSEPORT] else [])) s)))" for s
      using calls_first[of "Setsockopt SO_BROADCAST"
              "Setsockopt SO_REUSEADDR # (if has_reuseport ev then [Setsockopt SO_REUSEPORT] else [])" s]
      by simp
    show "socket_only s (snd (and_then (broadcast_bind ev)
              (\<lambda>s. (Inr (), log DEBUG ''Set up a broadcast beacon to {0}:{1}'' s)) s))" for s
      by (intro socket_only_and_then socket_only_broadcast_bind) (simp add: socket_only_log)
  qed
  obtain r s' where r: "?r = (r, s')" by (cases ?r)
  have "Setsockopt SO_BROADCAST \<in> set (trace s') \<or> Setsockopt IP_MULTICAST_TTL \<in> set (trace s')"
    using m b r by (auto split: if_splits)
  then show ?thesis using assms r
    by (auto simp add: init_socket_def log_def emit_def split: sum.splits)
qed

text \<open>With no payload set the loop only waits without timeout and sends nothing, and two
  such runs on the same ticks go through the same passes.\<close>

lemma publish_decodable: "decodable ''PUBLISH''"
  by (simp add: decodable_def)

lemma api_command_publish:
  "api_command (''PUBLISH'' # args) now s =
     (case args of [] \<Rightarrow> (Inl IndexError, s)
      | a # r \<Rightarrow> (Inr (), s\<lparr>transmit := Some a, p_ping_at := now\<rparr>))"
  by (simp add: api_command_def publish_decodable)

lemma api_command_other:
  assumes "c \<noteq> ''PUBLISH''"
  shows "fst (api_command (c # args) now a) = fst (api_command (c # args) now b)"
    and "transmit (snd (api_command (c # args) now a)) = transmit a \<or>
         transmit (snd (api_command (c # args) now a)) = None"
    and "p_terminated a = p_terminated b \<Longrightarrow>
         p_terminated (snd (api_command (c # args) now a))
           = p_terminated (snd (api_command (c # args) now b))"
    and "datagrams (trace (snd (api_command (c # args) now a))) = datagrams (trace a)"
    and "polls (trace (snd (api_command (c # args) now a))) = polls (trace a)"
  using assms
  by (simp_all add: api_command_def emit_def log_def datagrams_append polls_append
        split: list.splits option.splits)

lemma api_command_silent:
  assumes "silent a b"
      and "\<not> (\<exists>p r. cmds = ''PUBLISH'' # p # r \<and> p \<noteq> [])"
  shows "fst (api_command cmds now a) = fst (api_command cmds now b)"
    and "silent (snd (api_command cmds now a)) (snd (api_command cmds now b))"
    and "datagrams (trace (snd (api_command cmds now a))) = datagrams (trace a)"
    and "polls (trace (snd (api_command cmds now a))) = polls (trace a)"
proof -
  have "fst (api_command cmds now a) = fst (api_command cmds now b)
        \<and> silent (snd (api_command cmds now a)) (snd (api_command cmds now b))
        \<and> datagrams (trace (snd (api_command cmds now a))) = datagrams (trace a)
        \<and> polls (trace (snd (api_command cmds now a))) = polls (trace a)"
  proof (cases cmds)
    case Nil
    then show ?thesis using assms(1) by (simp add: api_command_def)
  next
    case (Cons c args)
    show ?thesis
    proof (cases "c = ''PUBLISH''")
      case True
      show ?thesis
      proof (cases args)
        case Nil
        then show ?thesis using Cons True assms(1) by (simp add: api_command_publish)
      next
        case (Cons p r)
        then have "p = []" using assms(2) \<open>cmds = c # args\<close> True by simp
        then show ?thesis using Cons \<open>cmds = c # args\<close> True assms(1)
          by (simp add: api_command_publish silent_def truthy_def)
      qed
    next
      case False
      have ta: "\<not> truthy (transmit (snd (api_command (c # args) now a)))"
        using api_command_other(2)[OF False, of args now a] assms(1)
        by (auto simp add: silent_def truthy_def)
      have tb: "\<not> truthy (transmit (snd (api_command (c # args) now b)))"
        using api_command_other(2)[OF False, of args now b] assms(1)
        by (auto simp add: silent_def truthy_def)
      have tt: "p_terminated (snd (api_command (c # args) now a))
                  = p_terminated (snd (api_command (c # args) now b))"
        using api_command_other(3)[OF False, of a b args now] assms(1) by (simp add: silent_def)
      show ?thesis
        using Cons ta tb tt api_command_other(1,4,5)[OF False, of args now a]
        by (simp add: silent_def)
    qed
  qed
  then show "fst (api_command cmds now a) = fst (api_command cmds now b)"
    and "silent (snd (api_command cmds now a)) (snd (api_command cmds now b))"
    and "datagrams (trace (snd (api_command cmds now a))) = datagrams (trace a)"
    and "polls (trace (snd (api_command cmds now a))) = polls (trace a)"
    by simp_all
qed

lemma recv_silent:
  assumes "silent a b"
  shows "fst (recv r a) = fst (recv r b)"
    and "silent (snd (recv r a)) (snd (recv r b))"
  using assms recv_keeps(1,3)[of r a] recv_keeps(1,3)[of r b]
  by (cases r; simp add: silent_def recv_def Let_def)+

lemma transmit_due_silent:
  "\<not> truthy (transmit s) \<Longrightarrow> transmit_due ev t s = (Inr (), s)"
  by (simp add: transmit_due_def)

lemma iteration_silent:
  assumes "silent a b" and "\<not> nonempty_publish t"
  shows "fst (iteration ev t a) = fst (iteration ev t b)"
    and "silent (snd (iteration ev t a)) (snd (iteration ev t b))"
    and "datagrams (trace (snd (iteration ev t a))) = datagrams (trace a)"
    and "polls (trace (snd (iteration ev t a))) = polls (trace a) @ [- 1000]"
proof -
  let ?C = "\<lambda>s. (case pipe_in t of None \<Rightarrow> Pair (Inr ()) | Some cmds \<Rightarrow> api_command cmds (now_cmd t)) s"
  let ?R = "\<lambda>s. (case udp_in t of None \<Rightarrow> Pair (Inr ()) | Some r \<Rightarrow> recv r) s"
  let ?a1 = "poll t a" and ?b1 = "poll t b"
  have s1: "silent ?a1 ?b1" using assms(1) by (simp add: silent_def poll_def emit_def)
  have d1: "datagrams (trace ?a1) = datagrams (trace a)"
    and p1: "polls (trace ?a1) = polls (trace a) @ [- 1000]"
    using assms(1)
    by (simp_all add: poll_def emit_def wait_timeout_def silent_def datagrams_append polls_append)
  have c: "fst (?C ?a1) = fst (?C ?b1) \<and> silent (snd (?C ?a1)) (snd (?C ?b1))
           \<and> datagrams (trace (snd (?C ?a1))) = datagrams (trace ?a1)
           \<and> polls (trace (snd (?C ?a1))) = polls (trace ?a1)"
  proof (cases "pipe_in t")
    case None
    then show ?thesis using s1 by simp
  next
    case (Some cmds)
    have np: "\<not> (\<exists>p r. cmds = ''PUBLISH'' # p # r \<and> p \<noteq> [])"
      using assms(2) Some by (auto simp add: nonempty_publish_def)
    show ?thesis using Some api_command_silent[OF s1 np, of "now_cmd t"] by simp
  qed
  obtain ra a2 where a2: "?C ?a1 = (ra, a2)" by (cases "?C ?a1")
  obtain rb b2 where b2: "?C ?b1 = (rb, b2)" by (cases "?C ?b1")
  have rab: "ra = rb" and s2: "silent a2 b2" and d2: "datagrams (trace a2) = datagrams (trace a)"
    and p2: "polls (trace a2) = polls (trace a) @ [- 1000]"
    using c a2 b2 d1 p1 by simp_all
  have r: "fst (?R a2) = fst (?R b2) \<and> silent (snd (?R a2)) (snd (?R b2))
           \<and> datagrams (trace (snd (?R a2))) = datagrams (trace a2)
           \<and> polls (trace (snd (?R a2))) = polls (trace a2)"
  proof (cases "udp_in t")
    case None
    then show ?thesis using s2 by simp
  next
    case (Some x)
    then show ?thesis using recv_silent[OF s2, of x] recv_keeps(5,6)[of x a2] by simp
  qed
  obtain ra3 a3 where a3: "?R a2 = (ra3, a3)" by (cases "?R a2")
  obtain rb3 b3 where b3: "?R b2 = (rb3, b3)" by (cases "?R b2")
  have rab3: "ra3 = rb3" and s3: "silent a3 b3" and d3: "datagrams (trace a3) = datagrams (trace a)"
    and p3: "polls (trace a3) = polls (trace a) @ [- 1000]"
    using r a3 b3 d2 p2 by simp_all
  have ta: "transmit_due ev t a3 = (Inr (), a3)" and tb: "transmit_due ev t b3 = (Inr (), b3)"
    using s3 by (simp_all add: silent_def transmit_due_silent)
  have ia: "iteration ev t a = (case ra of Inl x \<Rightarrow> (Inl x, a2) | Inr u \<Rightarrow>
                (case ra3 of Inl x \<Rightarrow> (Inl x, a3) | Inr u \<Rightarrow> (Inr (), a3)))"
    using a2 a3 ta by (simp add: iteration_def and_then_def split: sum.splits)
  have ib: "iteration ev t b = (case rb of Inl x \<Rightarrow> (Inl x, b2) | Inr u \<Rightarrow>
                (case rb3 of Inl x \<Rightarrow> (Inl x, b3) | Inr u \<Rightarrow> (Inr (), b3)))"
    using b2 b3 tb by (simp add: iteration_def and_then_def split: sum.splits)
  show "fst (iteration ev t a) = fst (iteration ev t b)"
    using ia ib rab rab3 by (simp split: sum.splits)
  show "silent (snd (iteration ev t a)) (snd (iteration ev t b))"
    using ia ib rab rab3 s2 s3 by (simp split: sum.splits)
  show "datagrams (trace (snd (iteration ev t a))) = datagrams (trace a)"
    using ia d2 d3 by (simp split: sum.splits)
  show "polls (trace (snd (iteration ev t a))) = polls (trace a) @ [- 1000]"
    using ia p2 p3 by (simp split: sum.splits)
qed

lemma silent_sym: "silent a b \<Longrightarrow> silent b a"
  by (simp add: silent_def)

lemma run_loop_silent:
  assumes "silent a b" and "list_all (\<lambda>t. \<not> nonempty_publish t) ts"
  shows "\<exists>n. polls (trace (final (run_loop ev ts a))) = polls (trace a) @ replicate n (- 1000)
           \<and> polls (trace (final (run_loop ev ts b))) = polls (trace b) @ replicate n (- 1000)
           \<and> datagrams (trace (final (run_loop ev ts a))) = datagrams (trace a)
           \<and> datagrams (trace (final (run_loop ev ts b))) = datagrams (trace b)
           \<and> raised (run_loop ev ts a) = raised (run_loop ev ts b)
           \<and> waiting (run_loop ev ts a) = waiting (run_loop ev ts b)"
  using assms
proof (induction ts arbitrary: a b)
  case Nil
  show ?case by (intro exI[of _ "0::nat"]) simp
next
  case (Cons t ts)
  have q: "\<not> nonempty_publish t" and qs: "list_all (\<lambda>t. \<not> nonempty_publish t) ts"
    using Cons.prems(2) by simp_all
  have sab: "silent a b" by (rule Cons.prems(1))
  have wa: "wait_timeout (now_wait t) a = - 1" and wb: "wait_timeout (now_wait t) b = - 1"
    using sab by (simp_all add: silent_def wait_timeout_def)
  show ?case
  proof (cases "pipe_in t = None \<and> udp_in t = None")
    case True
    have r: "run_loop ev (t # ts) a = Waiting (poll t a)" "run_loop ev (t # ts) b = Waiting (poll t b)"
      using True wa wb by simp_all
    have p: "polls (trace (poll t a)) = polls (trace a) @ [- 1000]"
      "polls (trace (poll t b)) = polls (trace b) @ [- 1000]"
      "datagrams (trace (poll t a)) = datagrams (trace a)"
      "datagrams (trace (poll t b)) = datagrams (trace b)"
      using wa wb by (simp_all add: poll_def emit_def polls_append datagrams_append)
    show ?thesis unfolding r by (intro exI[of _ "1::nat"]) (simp add: p)
  next
    case False
    obtain ra a' where a': "iteration ev t a = (ra, a')" by (cases "iteration ev t a")
    obtain rb b' where b': "iteration ev t b = (rb, b')" by (cases "iteration ev t b")
    have rr: "ra = rb" and s': "silent a' b'"
      using iteration_silent(1,2)[OF sab q, of ev] a' b' by simp_all
    have da: "datagrams (trace a') = datagrams (trace a)"
      and pa: "polls (trace a') = polls (trace a) @ [- 1000]"
      using iteration_silent(3,4)[OF sab q, of ev] a' by simp_all
    have db: "datagrams (trace b') = datagrams (trace b)"
      and pb: "polls (trace b') = polls (trace b) @ [- 1000]"
      using iteration_silent(3,4)[OF silent_sym[OF sab] q, of ev] b' by simp_all
    have tt: "p_terminated a' = p_terminated b'" using s' by (simp add: silent_def)
    show ?thesis
    proof (cases ra)
      case (Inl x)
      have r: "run_loop ev (t # ts) a = Raised x a'" "run_loop ev (t # ts) b = Raised x b'"
        using False a' b' rr Inl by auto
      show ?thesis unfolding r by (intro exI[of _ "1::nat"]) (simp add: pa pb da db)
    next
      case (Inr u)
      show ?thesis
      proof (cases "p_terminated a'")
        case True
        let ?la = "log DEBUG ''ZBeaconAgent terminated'' a'"
        let ?lb = "log DEBUG ''ZBeaconAgent terminated'' b'"
        have r: "run_loop ev (t # ts) a = Returned ?la" "run_loop ev (t # ts) b = Returned ?lb"
          using False a' b' rr Inr True tt by auto
        have p: "polls (trace ?la) = polls (trace a) @ [- 1000]"
          "polls (trace ?lb) = polls (trace b) @ [- 1000]"
          "datagrams (trace ?la) = datagrams (trace a)"
          "datagrams (trace ?lb) = datagrams (trace b)"
          using pa pb da db by (simp_all add: log_def emit_def polls_append datagrams_append)
        show ?thesis unfolding r by (intro exI[of _ "1::nat"]) (simp add: p)
      next
        case F: False
        have r: "run_loop ev (t # ts) a = run_loop ev ts a'"
          "run_loop ev (t # ts) b = run_loop ev ts b'"
          using False a' b' rr Inr F tt by auto
        obtain n where n:
          "polls (trace (final (run_loop ev ts a'))) = polls (trace a') @ replicate n (- 1000)"
          "polls (trace (final (run_loop ev ts b'))) = polls (trace b') @ replicate n (- 1000)"
          "datagrams (trace (final (run_loop ev ts a'))) = datagrams (trace a')"
          "datagrams (trace (final (run_loop ev ts b'))) = datagrams (trace b')"
          "raised (run_loop ev ts a') = raised (run_loop ev ts b')"
          "waiting (run_loop ev ts a') = waiting (run_loop ev ts b')"
          using Cons.IH[OF s' qs] by blast
        show ?thesis unfolding r
          by (intro exI[of _ "Suc n"]) (simp add: n pa pb da db)
      qed
    qed
  qed
qed

text \<open>Two runs with no payload set that agree on filter and flags write the same frames
  to the pipe, as long as no zero-length datagram is received.\<close>

lemma api_command_other_pipe:
  assumes "c \<noteq> ''PUBLISH''"
  shows "p_filter a = p_filter b \<Longrightarrow>
         p_filter (snd (api_command (c # args) now a)) = p_filter (snd (api_command (c # args) now b))"
    and "p_noecho a = p_noecho b \<Longrightarrow>
         p_noecho (snd (api_command (c # args) now a)) = p_noecho (snd (api_command (c # args) now b))"
    and "pipe_frames (trace (snd (api_command (c # args) now a)))
           = pipe_frames (trace a) @ (if c = ''$TERM'' then [(''OK'', False)] else [])"
  using assms
  by (simp_all add: api_command_def decodable_def emit_def log_def pipe_frames_append
        split: list.splits option.splits)

lemma api_command_alike:
  assumes "alike a b"
      and "\<not> (\<exists>p r. cmds = ''PUBLISH'' # p # r \<and> p \<noteq> [])"
  shows "alike (snd (api_command cmds now a)) (snd (api_command cmds now b)) \<and>
         (\<exists>X. pipe_frames (trace (snd (api_command cmds now a))) = pipe_frames (trace a) @ X
            \<and> pipe_frames (trace (snd (api_command cmds now b))) = pipe_frames (trace b) @ X)"
proof -
  have sab: "silent a b" and fab: "p_filter a = p_filter b" and nab: "p_noecho a = p_noecho b"
    using assms(1) by (simp_all add: alike_def)
  have sil: "silent (snd (api_command cmds now a)) (snd (api_command cmds now b))"
    by (rule api_command_silent(2)[OF sab assms(2)])
  show ?thesis
  proof (cases cmds)
    case Nil
    have "api_command [] now a = (Inl IndexError, a)" "api_command [] now b = (Inl IndexError, b)"
      by (simp_all add: api_command_def)
    then show ?thesis using Nil assms(1) by (intro conjI exI[of _ "[]"]) simp_all
  next
    case (Cons c args)
    show ?thesis
    proof (cases "c = ''PUBLISH''")
      case True
      have a: "p_filter (snd (api_command cmds now a)) = p_filter a"
        "p_noecho (snd (api_command cmds now a)) = p_noecho a"
        "pipe_frames (trace (snd (api_command cmds now a))) = pipe_frames (trace a)"
        using Cons True by (cases args; simp add: api_command_publish)+
      have b: "p_filter (snd (api_command cmds now b)) = p_filter b"
        "p_noecho (snd (api_command cmds now b)) = p_noecho b"
        "pipe_frames (trace (snd (api_command cmds now b))) = pipe_frames (trace b)"
        using Cons True by (cases args; simp add: api_command_publish)+
      show ?thesis using sil a b fab nab
        by (intro conjI exI[of _ "[]"]) (simp_all add: alike_def)
    next
      case False
      note o = api_command_other_pipe[OF False]
      have al: "alike (snd (api_command cmds now a)) (snd (api_command cmds now b))"
        using sil o(1)[OF fab, of args now] o(2)[OF nab, of args now] Cons
        by (simp add: alike_def)
      show ?thesis using al o(3)[of args now a] o(3)[of args now b] Cons
        by (intro conjI exI[of _ "if c = ''$TERM'' then [(''OK'', False)] else []"]) simp_all
    qed
  qed
qed

lemma recv_datagram_frames:
  "pipe_frames (trace (snd (recv (Datagram d ad) s)))
     = pipe_frames (trace s) @
       (if passes_filter s (take BEACON_MAX d)
           \<and> \<not> (p_noecho s \<and> transmit s = Some (take BEACON_MAX d))
        then [(fst ad, True), (take BEACON_MAX d, False)] else [])"
  by (simp add: recv_def passes_filter_def Let_def emit_def log_def pipe_frames_append
        del: take_take length_take)

lemma recv_alike:
  assumes "alike a b" and "\<forall>ad. r \<noteq> Datagram [] ad"
  shows "alike (snd (recv r a)) (snd (recv r b)) \<and>
         (\<exists>X. pipe_frames (trace (snd (recv r a))) = pipe_frames (trace a) @ X
            \<and> pipe_frames (trace (snd (recv r b))) = pipe_frames (trace b) @ X)"
proof -
  have sab: "silent a b" and fab: "p_filter a = p_filter b" and nab: "p_noecho a = p_noecho b"
    using assms(1) by (simp_all add: alike_def)
  have al: "alike (snd (recv r a)) (snd (recv r b))"
    using recv_silent(2)[OF sab, of r] recv_keeps(2,4)[of r a] recv_keeps(2,4)[of r b] fab nab
    by (simp add: alike_def)
  show ?thesis
  proof (cases r)
    case RecvError
    have "pipe_frames (trace (snd (recv RecvError a))) = pipe_frames (trace a) @ []"
      "pipe_frames (trace (snd (recv RecvError b))) = pipe_frames (trace b) @ []"
      by (simp_all add: recv_def emit_def log_def pipe_frames_append)
    then show ?thesis using al RecvError by blast
  next
    case (Datagram d ad)
    define D where "D = take BEACON_MAX d"
    have dn: "D \<noteq> []" using assms(2) Datagram by (simp add: D_def BEACON_MAX_def)
    have ta: "transmit a \<noteq> Some D" and tb: "transmit b \<noteq> Some D"
      using sab dn by (auto simp add: silent_def truthy_def)
    have pf: "passes_filter a D = passes_filter b D"
      using fab by (simp add: passes_filter_def)
    let ?X = "if passes_filter a D then [(fst ad, True), (D, False)] else []"
    have "pipe_frames (trace (snd (recv (Datagram d ad) a))) = pipe_frames (trace a) @ ?X"
      using ta recv_datagram_frames[of d ad a] by (simp add: D_def)
    moreover have "pipe_frames (trace (snd (recv (Datagram d ad) b))) = pipe_frames (trace b) @ ?X"
      using tb pf recv_datagram_frames[of d ad b] by (simp add: D_def)
    ultimately show ?thesis using al Datagram by blast
  qed
qed


lemma iteration_alike:
  assumes "alike a b" and "\<not> nonempty_publish t" and "\<not> empty_datagram t"
  shows "alike (snd (iteration ev t a)) (snd (iteration ev t b)) \<and>
         (\<exists>X. pipe_frames (trace (snd (iteration ev t a))) = pipe_frames (trace a) @ X
            \<and> pipe_frames (trace (snd (iteration ev t b))) = pipe_frames (trace b) @ X)"
proof -
  let ?C = "\<lambda>s. (case pipe_in t of None \<Rightarrow> Pair (Inr ()) | Some cmds \<Rightarrow> api_command cmds (now_cmd t)) s"
  let ?R = "\<lambda>s. (case udp_in t of None \<Rightarrow> Pair (Inr ()) | Some r \<Rightarrow> recv r) s"
  let ?a1 = "poll t a" and ?b1 = "poll t b"
  have a1: "alike ?a1 ?b1" using assms(1) by (simp add: alike_def silent_def poll_def emit_def)
  have f1: "pipe_frames (trace ?a1) = pipe_frames (trace a)"
    "pipe_frames (trace ?b1) = pipe_frames (trace b)"
    by (simp_all add: poll_def emit_def pipe_frames_append)
  have c: "fst (?C ?a1) = fst (?C ?b1) \<and> alike (snd (?C ?a1)) (snd (?C ?b1)) \<and>
           (\<exists>X. pipe_frames (trace (snd (?C ?a1))) = pipe_frames (trace ?a1) @ X
              \<and> pipe_frames (trace (snd (?C ?b1))) = pipe_frames (trace ?b1) @ X)"
  proof (cases "pipe_in t")
    case None
    have "pipe_frames (trace ?a1) = pipe_frames (trace ?a1) @ []"
      "pipe_frames (trace ?b1) = pipe_frames (trace ?b1) @ []" by simp_all
    then show ?thesis using None a1 by auto
  next
    case (Some cmds)
    have np: "\<not> (\<exists>p r. cmds = ''PUBLISH'' # p # r \<and> p \<noteq> [])"
      using assms(2) Some by (auto simp add: nonempty_publish_def)
    have s1: "silent ?a1 ?b1" using a1 by (simp add: alike_def)
    show ?thesis
      using Some api_command_alike[OF a1 np, of "now_cmd t"]
        api_command_silent(1)[OF s1 np, of "now_cmd t"] by simp
  qed
  obtain ra a2 where a2: "?C ?a1 = (ra, a2)" by (cases "?C ?a1")
  obtain rb b2 where b2: "?C ?b1 = (rb, b2)" by (cases "?C ?b1")
  obtain X1 where rab: "ra = rb" and al2: "alike a2 b2"
    and f2: "pipe_frames (trace a2) = pipe_frames (trace a) @ X1"
      "pipe_frames (trace b2) = pipe_frames (trace b) @ X1"
    using c a2 b2 f1 by auto
  have r: "fst (?R a2) = fst (?R b2) \<and> alike (snd (?R a2)) (snd (?R b2)) \<and>
           (\<exists>X. pipe_frames (trace (snd (?R a2))) = pipe_frames (trace a2) @ X
              \<and> pipe_frames (trace (snd (?R b2))) = pipe_frames (trace b2) @ X)"
  proof (cases "udp_in t")
    case None
    have "pipe_frames (trace a2) = pipe_frames (trace a2) @ []"
      "pipe_frames (trace b2) = pipe_frames (trace b2) @ []" by simp_all
    then show ?thesis using None al2 by auto
  next
    case (Some x)
    have ne: "\<forall>ad. x \<noteq> Datagram [] ad" using assms(3) Some by (auto simp add: empty_datagram_def)
    have s2: "silent a2 b2" using al2 by (simp add: alike_def)
    show ?thesis using Some recv_alike[OF al2 ne] recv_silent(1)[OF s2, of x] by simp
  qed
  obtain ra3 a3 where a3: "?R a2 = (ra3, a3)" by (cases "?R a2")
  obtain rb3 b3 where b3: "?R b2 = (rb3, b3)" by (cases "?R b2")
  obtain X2 where rab3: "ra3 = rb3" and al3: "alike a3 b3"
    and f3: "pipe_frames (trace a3) = pipe_frames (trace a) @ (X1 @ X2)"
      "pipe_frames (trace b3) = pipe_frames (trace b) @ (X1 @ X2)"
    using r a3 b3 f2 by auto
  have ta: "transmit_due ev t a3 = (Inr (), a3)" and tb: "transmit_due ev t b3 = (Inr (), b3)"
    using al3 by (simp_all add: alike_def silent_def transmit_due_silent)
  have ia: "snd (iteration ev t a) = (case ra of Inl x \<Rightarrow> a2 | Inr u \<Rightarrow> a3)"
    using a2 a3 ta by (simp add: iteration_def and_then_def split: sum.splits)
  have ib: "snd (iteration ev t b) = (case rb of Inl x \<Rightarrow> b2 | Inr u \<Rightarrow> b3)"
    using b2 b3 tb by (simp add: iteration_def and_then_def split: sum.splits)
  show ?thesis
  proof (cases ra)
    case (Inl x)
    then show ?thesis using ia ib rab al2 f2 by auto
  next
    case (Inr u)
    then show ?thesis using ia ib rab al3 f3 by auto
  qed
qed

lemma run_loop_alike:
  assumes "alike a b" and "list_all (\<lambda>t. \<not> nonempty_publish t) ts"
      and "list_all (\<lambda>t. \<not> empty_datagram t) ts"
  shows "\<exists>X. pipe_frames (trace (final (run_loop ev ts a))) = pipe_frames (trace a) @ X
           \<and> pipe_frames (trace (final (run_loop ev ts b))) = pipe_frames (trace b) @ X"
  using assms
proof (induction ts arbitrary: a b)
  case Nil
  show ?case by (intro exI[of _ "[]"]) simp
next
  case (Cons t ts)
  have q: "\<not> nonempty_publish t" and qs: "list_all (\<lambda>t. \<not> nonempty_publish t) ts"
    using Cons.prems(2) by simp_all
  have e: "\<not> empty_datagram t" and es: "list_all (\<lambda>t. \<not> empty_datagram t) ts"
    using Cons.prems(3) by simp_all
  have aab: "alike a b" by (rule Cons.prems(1))
  have sab: "silent a b" using aab by (simp add: alike_def)
  have wa: "wait_timeout (now_wait t) a = - 1" and wb: "wait_timeout (now_wait t) b = - 1"
    using sab by (simp_all add: silent_def wait_timeout_def)
  show ?case
  proof (cases "pipe_in t = None \<and> udp_in t = None")
    case True
    have r: "run_loop ev (t # ts) a = Waiting (poll t a)" "run_loop ev (t # ts) b = Waiting (poll t b)"
      using True wa wb by simp_all
    show ?thesis unfolding r
      by (intro exI[of _ "[]"]) (simp add: poll_def emit_def pipe_frames_append)
  next
    case False
    obtain ra a' where a': "iteration ev t a = (ra, a')" by (cases "iteration ev t a")
    obtain rb b' where b': "iteration ev t b = (rb, b')" by (cases "iteration ev t b")
    have rr: "ra = rb" using iteration_silent(1)[OF sab q, of ev] a' b' by simp
    obtain X where al': "alike a' b'"
      and fa: "pipe_frames (trace a') = pipe_frames (trace a) @ X"
      and fb: "pipe_frames (trace b') = pipe_frames (trace b) @ X"
      using iteration_alike[OF aab q e, of ev] a' b' by auto
    have tt: "p_terminated a' = p_terminated b'" using al' by (simp add: alike_def silent_def)
    show ?thesis
    proof (cases ra)
      case (Inl x)
      have r: "run_loop ev (t # ts) a = Raised x a'" "run_loop ev (t # ts) b = Raised x b'"
        using False a' b' rr Inl by auto
      show ?thesis unfolding r by (intro exI[of _ X]) (simp add: fa fb)
    next
      case (Inr u)
      show ?thesis
      proof (cases "p_terminated a'")
        case True
        have r: "run_loop ev (t # ts) a = Returned (log DEBUG ''ZBeaconAgent terminated'' a')"
          "run_loop ev (t # ts) b = Returned (log DEBUG ''ZBeaconAgent terminated'' b')"
          using False a' b' rr Inr True tt by auto
        show ?thesis unfolding r
          by (intro exI[of _ X]) (simp add: fa fb log_def emit_def pipe_frames_append)
      next
        case F: False
        have r: "run_loop ev (t # ts) a = run_loop ev ts a'"
          "run_loop ev (t # ts) b = run_loop ev ts b'"
          using False a' b' rr Inr F tt by auto
        obtain Y where Y:
          "pipe_frames (trace (final (run_loop ev ts a'))) = pipe_frames (trace a') @ Y"
          "pipe_frames (trace (final (run_loop ev ts b'))) = pipe_frames (trace b') @ Y"
          using Cons.IH[OF al' qs es] by blast
        show ?thesis unfolding r by (intro exI[of _ "X @ Y"]) (simp add: Y fa fb)
      qed
    qed
  qed
qed

subsection \<open>The filter check\<close>

text \<open>
  C1 (as amended).  Let \<open>F\<close> be a non-empty filter installed by SUBSCRIBE and \<open>D\<close> the
  data of a received datagram (its first 255 bytes).  The receive cycle discards \<open>D\<close>
  when \<open>D\<close> is longer than \<open>F\<close> and does not start with \<open>F\<close>.  It delivers \<open>D\<close> with the
  sender's address, unless the echo check applies, when \<open>D\<close> starts with \<open>F\<close>, and also
  whenever \<open>D\<close> is no longer than \<open>F\<close>: the filter is compared only with longer data.
\<close>

theorem recv_filter_check:
  assumes "F \<noteq> []"
  shows "(length F < length (take BEACON_MAX d) \<and> \<not> prefix F (take BEACON_MAX d) \<longrightarrow>
            discards (recv (Datagram d a) (snd (api_command [''SUBSCRIBE'', F] now s)))
                     (snd (api_command [''SUBSCRIBE'', F] now s)))
       \<and> ((prefix F (take BEACON_MAX d) \<or> length (take BEACON_MAX d) \<le> length F)
            \<and> \<not> (p_noecho s \<and> transmit s = Some (take BEACON_MAX d)) \<longrightarrow>
            delivers (recv (Datagram d a) (snd (api_command [''SUBSCRIBE'', F] now s)))
                     (snd (api_command [''SUBSCRIBE'', F] now s)) (fst a) (take BEACON_MAX d))"
proof -
  let ?D = "take BEACON_MAX d"
  let ?s = "s\<lparr>p_filter := Some F\<rparr>"
  have st: "snd (api_command [''SUBSCRIBE'', F] now s) = ?s"
    by (simp add: subscribe_sets_filter)
  have A: "discards (recv (Datagram d a) ?s) ?s"
    if "length F < length ?D" "\<not> prefix F ?D"
    using that assms longer_mismatch[of F ?D]
    by (simp add: recv_def discards_def emit_def log_def truthy_def Let_def pipe_frames_append)
  have B: "delivers (recv (Datagram d a) ?s) ?s (fst a) ?D"
    if "prefix F ?D \<or> length ?D \<le> length F" "\<not> (p_noecho s \<and> transmit s = Some ?D)"
  proof -
    have "\<not> (length F < length ?D \<and> take (length F) ?D \<noteq> F)"
      using that(1) longer_mismatch[of F ?D] by auto
    then show ?thesis using that(2) assms
      by (auto simp add: recv_def delivers_def emit_def log_def truthy_def Let_def
            pipe_frames_append)
  qed
  show ?thesis unfolding st using A B by blast
qed

text \<open>
  The theorem at the filter \<open>ZRE\<close> on a new agent: \<open>XYZ1\<close> is discarded, \<open>ZRE1\<close> is
  delivered, and so is the short \<open>XY\<close>.
\<close>

theorem recv_filter_check_witness:
  "''ZRE'' \<noteq> [] \<and>
   discards (recv (Datagram ''XYZ1'' (''10.0.0.2'', 5670))
               (snd (api_command [''SUBSCRIBE'', ''ZRE''] 0 (new_agent 5670 []))))
            (snd (api_command [''SUBSCRIBE'', ''ZRE''] 0 (new_agent 5670 []))) \<and>
   delivers (recv (Datagram ''ZRE1'' (''10.0.0.2'', 5670))
               (snd (api_command [''SUBSCRIBE'', ''ZRE''] 0 (new_agent 5670 []))))
            (snd (api_command [''SUBSCRIBE'', ''ZRE''] 0 (new_agent 5670 []))) ''10.0.0.2'' ''ZRE1'' \<and>
   delivers (recv (Datagram ''XY'' (''10.0.0.2'', 5670))
               (snd (api_command [''SUBSCRIBE'', ''ZRE''] 0 (new_agent 5670 []))))
            (snd (api_command [''SUBSCRIBE'', ''ZRE''] 0 (new_agent 5670 []))) ''10.0.0.2'' ''XY''"
proof -
  have ne: "''ZRE'' \<noteq> []" by simp
  show ?thesis
    using recv_filter_check [OF ne, of "''XYZ1''" "(''10.0.0.2'', 5670)" 0 "new_agent 5670 []"]
      recv_filter_check [OF ne, of "''ZRE1''" "(''10.0.0.2'', 5670)" 0 "new_agent 5670 []"]
      recv_filter_check [OF ne, of "''XY''" "(''10.0.0.2'', 5670)" 0 "new_agent 5670 []"]
    by (simp add: BEACON_MAX_def new_agent_def)
qed

text \<open>
  C1 as stated fails: with the filter \<open>ZRE\<close> installed, the datagram \<open>XY\<close> does not start
  with the filter and is delivered all the same.
\<close>

theorem short_datagram_passes_filter:
  "\<not> prefix ''ZRE'' ''XY'' \<and>
   delivers (recv (Datagram ''XY'' (''10.0.0.2'', 5670))
               (snd (api_command [''SUBSCRIBE'', ''ZRE''] 0 (new_agent 5670 []))))
            (snd (api_command [''SUBSCRIBE'', ''ZRE''] 0 (new_agent 5670 []))) ''10.0.0.2'' ''XY''"
  by (simp add: subscribe_sets_filter recv_def delivers_def emit_def log_def truthy_def
        new_agent_def BEACON_MAX_def)

subsection \<open>Unsubscribing\<close>

text \<open>
  C2 at a failing input.  After SUBSCRIBE with filter \<open>ZRE\<close> and then UNSUBSCRIBE, the
  attribute read by the filter check still holds \<open>ZRE\<close> (UNSUBSCRIBE assigned the other
  attribute, \<open>self.filter\<close>), and the datagram \<open>XYZ1\<close>, discarded under the filter, is
  still discarded.
\<close>

theorem unsubscribe_keeps_filter:
  "p_filter (snd (api_command [''UNSUBSCRIBE''] 1
               (snd (api_command [''SUBSCRIBE'', ''ZRE''] 0 (new_agent 5670 []))))) = Some ''ZRE''
   \<and> filter_pub (snd (api_command [''UNSUBSCRIBE''] 1
               (snd (api_command [''SUBSCRIBE'', ''ZRE''] 0 (new_agent 5670 []))))) = Some None
   \<and> discards (recv (Datagram ''XYZ1'' (''10.0.0.2'', 5670))
        (snd (api_command [''UNSUBSCRIBE''] 1
               (snd (api_command [''SUBSCRIBE'', ''ZRE''] 0 (new_agent 5670 []))))))
        (snd (api_command [''UNSUBSCRIBE''] 1
               (snd (api_command [''SUBSCRIBE'', ''ZRE''] 0 (new_agent 5670 [])))))"
  by (simp add: subscribe_sets_filter unsubscribe_sets_other_attribute recv_def discards_def
        emit_def log_def truthy_def new_agent_def BEACON_MAX_def)

subsection \<open>A failing read of the socket\<close>

text \<open>
  C6 at a failing input.  When \<open>recvfrom\<close> raises, the receive cycle logs and then raises
  \<open>UnboundLocalError\<close>; in a pass through the loop with only the socket readable the
  exception leaves the loop, whatever ticks were still to come.
\<close>

theorem recv_error_leaves_loop:
  "fst (recv RecvError s) = Inl UnboundLocalError \<and>
   run_loop ev ((idle now)\<lparr>udp_in := Some RecvError\<rparr> # ts) s =
     Raised UnboundLocalError
       (log EXCEPTION ''Exception while receiving''
          (emit (Recvfrom BEACON_MAX) (poll (idle now) s)))"
  by (simp add: recv_def iteration_def and_then_def idle_def poll_def)

subsection \<open>Oversized payloads\<close>

text \<open>
  C3 at a failing input.  \<open>ZBeacon.publish\<close> has no length check (its sibling
  \<open>subscribe\<close> has one): for a payload of 256 bytes it writes the complete message
  PUBLISH, payload to the pipe, and the agent that receives this message hands the 256
  bytes to \<open>sendto\<close> as one datagram.
\<close>

theorem oversized_publish_is_sent:
  "length (replicate 256 (CHR ''A'')) = 256 \<and>
   messages [] (pipe_frames (publish (replicate 256 (CHR ''A''))))
     = [[''PUBLISH'', replicate 256 (CHR ''A'')]] \<and>
   datagrams (trace (final (ZBeaconAgent_init lan_host 5670 ''255.255.255.255'' []
                              [command 0 [''PUBLISH'', replicate 256 (CHR ''A'')]])))
     = [replicate 256 (CHR ''A'')]"
proof -
  have ne: "replicate 256 (CHR ''A'') \<noteq> []" by simp
  show ?thesis
    using publish_tick_sends[OF ne lan_agent_facts(2), of lan_host 0]
    by (simp add: lan_start publish_def lan_agent_facts)
qed


subsection \<open>The interval\<close>

text \<open>
  C4 at a failing input.  After INTERVAL 1000 and PUBLISH at clock reading 0 (seconds)
  the payload is sent in the pass that handles PUBLISH, and the next send is scheduled
  at \<open>0 + 1000\<close> on the clock of \<open>time.time()\<close>, that is 1000 seconds later: a pass at
  reading 1 (1000 milliseconds later) waits 999000 ms more and sends nothing, a pass at
  reading 1000 sends the second datagram.
\<close>

theorem interval_is_taken_as_seconds:
  "p_ping_at (final (ZBeaconAgent_init lan_host 5670 ''255.255.255.255'' []
       [command 0 [''INTERVAL'', ''1000''], command 0 [''PUBLISH'', ''HELLO'']])) = 1000 \<and>
   datagrams (trace (final (ZBeaconAgent_init lan_host 5670 ''255.255.255.255'' []
       [command 0 [''INTERVAL'', ''1000''], command 0 [''PUBLISH'', ''HELLO'']]))) = [''HELLO''] \<and>
   datagrams (trace (final (ZBeaconAgent_init lan_host 5670 ''255.255.255.255'' []
       [command 0 [''INTERVAL'', ''1000''], command 0 [''PUBLISH'', ''HELLO''], idle 1])))
     = [''HELLO''] \<and>
   polls (trace (final (ZBeaconAgent_init lan_host 5670 ''255.255.255.255'' []
       [command 0 [''INTERVAL'', ''1000''], command 0 [''PUBLISH'', ''HELLO''], idle 1])))
     = [- 1000, - 1000, 999000] \<and>
   datagrams (trace (final (ZBeaconAgent_init lan_host 5670 ''255.255.255.255'' []
       [command 0 [''INTERVAL'', ''1000''], command 0 [''PUBLISH'', ''HELLO''], idle 1000])))
     = [''HELLO'', ''HELLO'']"
  unfolding lan_start lan_agent_eq by (simp add: host_defs loop_defs start_defs py_int_1000)


subsection \<open>Sending with one retry\<close>

text \<open>
  C9 at a failing input.  On the host with no qualifying interface the first socket
  initialisation has stored \<open>None\<close> as announce address.  When the first \<open>sendto\<close> of a
  send fails, the handler logs and re-runs the initialisation, which raises
  \<open>AttributeError\<close> on \<open>self.announce_address.is_multicast\<close>: the exception leaves the
  loop and the send is not retried (one datagram was handed to \<open>sendto\<close>, not two).
\<close>

theorem retry_skipped_without_interface:
  "raised (ZBeaconAgent_init lonely_host 5670 ''255.255.255.255''
             [False, False, False, False, True, True] [command 0 [''PUBLISH'', ''HELLO'']])
     = Some AttributeError \<and>
   datagrams (trace (final (ZBeaconAgent_init lonely_host 5670 ''255.255.255.255''
             [False, False, False, False, True, True] [command 0 [''PUBLISH'', ''HELLO'']])))
     = [''HELLO'']"
  by (simp add: host_defs start_defs loop_defs)

subsection \<open>Termination\<close>

text \<open>
  C8 (as amended).  In the pass of the loop that reads the command \<open>$TERM\<close> the handler
  writes one acknowledgment frame \<open>OK\<close> to the pipe; the loop ends with that pass,
  whatever ticks were still to come (the method returns or an exception raised later in
  the pass leaves it; it does not wait again).  After the acknowledgment the pass writes
  nothing more to the pipe, or exactly one announcement (sender, data): the socket is
  read after the command in the same pass.  When the socket is not readable in that pass,
  the acknowledgment is the last frame.
\<close>

theorem terminate_ends_loop:
  assumes "pipe_in t = Some [''$TERM'']"
  shows "run_loop ev (t # ts) s = run_loop ev [t] s \<and>
         \<not> waiting (run_loop ev [t] s) \<and>
         (\<exists>rest. pipe_frames (trace (final (run_loop ev [t] s)))
                    = pipe_frames (trace s) @ (''OK'', False) # rest
                \<and> (rest = [] \<or> (\<exists>p d. rest = [(p, True), (d, False)]))) \<and>
         (udp_in t = None \<longrightarrow>
            pipe_frames (trace (final (run_loop ev [t] s)))
              = pipe_frames (trace s) @ [(''OK'', False)])"
proof -
  let ?s2 = "emit (PipeSend ''OK'' False) ((poll t s)\<lparr>p_terminated := True\<rparr>)"
  have f2: "pipe_frames (trace ?s2) = pipe_frames (trace s) @ [(''OK'', False)]"
    by (simp add: emit_def poll_def pipe_frames_append)
  have t2: "p_terminated ?s2" by (simp add: emit_def)
  obtain r3 s3 where r3: "(case udp_in t of None \<Rightarrow> Pair (Inr ()) | Some r \<Rightarrow> recv r) ?s2 = (r3, s3)"
    by (cases "(case udp_in t of None \<Rightarrow> Pair (Inr ()) | Some r \<Rightarrow> recv r) ?s2")
  have t3: "p_terminated s3"
  proof (cases "udp_in t")
    case None
    then show ?thesis using r3 t2 by auto
  next
    case (Some r)
    then have "s3 = snd (recv r ?s2)" using r3 by simp
    then show ?thesis using t2 recv_keeps(1)[of r ?s2] by simp
  qed
  have f3: "pipe_frames (trace s3) = pipe_frames (trace ?s2) \<or>
            (\<exists>p d. pipe_frames (trace s3) = pipe_frames (trace ?s2) @ [(p, True), (d, False)])"
  proof (cases "udp_in t")
    case None
    then show ?thesis using r3 by auto
  next
    case (Some r)
    then have "s3 = snd (recv r ?s2)" using r3 by simp
    then show ?thesis using recv_frames[of r ?s2] by simp
  qed
  have f3n: "udp_in t = None \<Longrightarrow> s3 = ?s2" using r3 by auto
  obtain r4 s4 where r4: "transmit_due ev t s3 = (r4, s4)" by (cases "transmit_due ev t s3")
  have t4: "p_terminated s4" and f4: "pipe_frames (trace s4) = pipe_frames (trace s3)"
    using transmit_due_keeps(1,5)[of ev t s3] r4 t3 by simp_all
  have it: "iteration ev t s = (case r3 of Inl x \<Rightarrow> (Inl x, s3) | Inr u \<Rightarrow> (r4, s4))"
    using assms r3 r4 by (simp add: iteration_def and_then_def terminate_command split: sum.splits)
  have nw: "\<not> (wait_timeout (now_wait t) s < 0 \<and> pipe_in t = None \<and> udp_in t = None)"
    using assms by simp
  define s5 where "s5 = final (run_loop ev [t] s)"
  have fin: "pipe_frames (trace s5) = pipe_frames (trace s3)"
    using it nw t4 f4 unfolding s5_def
    by (auto simp add: log_def emit_def pipe_frames_append split: sum.splits)
  have A: "run_loop ev (t # ts) s = run_loop ev [t] s"
    using it nw t4 by (auto split: sum.splits)
  have B: "\<not> waiting (run_loop ev [t] s)"
    using it nw t4 by (auto split: sum.splits)
  have C: "\<exists>rest. pipe_frames (trace s5) = pipe_frames (trace s) @ (''OK'', False) # rest
                \<and> (rest = [] \<or> (\<exists>p d. rest = [(p, True), (d, False)]))"
    using fin f3 f2 by auto
  have D: "udp_in t = None \<Longrightarrow> pipe_frames (trace s5) = pipe_frames (trace s) @ [(''OK'', False)]"
    using fin f3n f2 by simp
  show ?thesis using A B C D unfolding s5_def by blast
qed

text \<open>The theorem on the started agent: \<open>$TERM\<close> together with a datagram, and \<open>$TERM\<close>
  alone, each followed by a tick that is never reached.\<close>

theorem terminate_ends_loop_witness:
  "pipe_in (command 0 [''$TERM'']) = Some [''$TERM''] \<and>
   run_loop lan_host [command 0 [''$TERM''], idle 1] lan_agent
     = run_loop lan_host [command 0 [''$TERM'']] lan_agent \<and>
   \<not> waiting (run_loop lan_host [command 0 [''$TERM'']] lan_agent) \<and>
   pipe_frames (trace (final (run_loop lan_host [command 0 [''$TERM'']] lan_agent)))
     = [(''192.168.1.5'', False), (''OK'', False)]"
proof -
  have h: "pipe_in (command 0 [''$TERM'']) = Some [''$TERM'']"
    by (simp add: command_def idle_def)
  have u: "udp_in (command 0 [''$TERM'']) = None"
    by (simp add: command_def idle_def)
  show ?thesis
    using h u terminate_ends_loop [OF h, of lan_host "[idle 1]" lan_agent]
    by (simp add: lan_agent_facts)
qed

text \<open>
  C8 as stated fails: when the poller reports the pipe and the socket readable in the
  same pass, the announcement of the datagram is written to the pipe after the
  acknowledgment \<open>OK\<close>.
\<close>

theorem announcement_after_acknowledgment:
  "pipe_frames (trace (final (ZBeaconAgent_init lan_host 5670 ''255.255.255.255'' []
       [(command 0 [''$TERM''])\<lparr>udp_in := Some (Datagram ''HI'' (''192.168.1.7'', 5670))\<rparr>])))
     = [(''192.168.1.5'', False), (''OK'', False), (''192.168.1.7'', True), (''HI'', False)]"
  unfolding lan_start lan_agent_eq by (simp add: host_defs loop_defs start_defs)

subsection \<open>Echo suppression\<close>

text \<open>
  C7 (as amended).  Echo suppression is on from the start: in the state of the agent
  after any start-up and any number of passes through the loop the flag is set.  So a
  received datagram equal to the active transmit payload is discarded, and a datagram
  that passes the filter check and differs from the payload is delivered.  No command
  clears the flag (NOECHO sets it again).
\<close>

theorem echo_suppression_on_from_start:
  "p_noecho (final (ZBeaconAgent_init ev port ann fails ts)) \<and>
   (transmit (final (ZBeaconAgent_init ev port ann fails ts)) = Some (take BEACON_MAX d) \<longrightarrow>
      discards (recv (Datagram d a) (final (ZBeaconAgent_init ev port ann fails ts)))
               (final (ZBeaconAgent_init ev port ann fails ts))) \<and>
   (passes_filter (final (ZBeaconAgent_init ev port ann fails ts)) (take BEACON_MAX d) \<and>
    transmit (final (ZBeaconAgent_init ev port ann fails ts)) \<noteq> Some (take BEACON_MAX d) \<longrightarrow>
      delivers (recv (Datagram d a) (final (ZBeaconAgent_init ev port ann fails ts)))
               (final (ZBeaconAgent_init ev port ann fails ts)) (fst a) (take BEACON_MAX d)) \<and>
   (p_noecho s \<longrightarrow> p_noecho (snd (api_command cmds now s)))"
proof -
  let ?S = "final (ZBeaconAgent_init ev port ann fails ts)"
  have n: "p_noecho ?S" by (rule init_noecho)
  have A: "discards (recv (Datagram d a) ?S) ?S" if "transmit ?S = Some (take BEACON_MAX d)"
    using that n
    by (simp add: recv_def discards_def Let_def emit_def log_def pipe_frames_append)
  have B: "delivers (recv (Datagram d a) ?S) ?S (fst a) (take BEACON_MAX d)"
    if "passes_filter ?S (take BEACON_MAX d)" "transmit ?S \<noteq> Some (take BEACON_MAX d)"
    using that
    by (auto simp add: recv_def delivers_def passes_filter_def Let_def emit_def log_def
          pipe_frames_append)
  show ?thesis using n A B api_command_noecho by blast
qed

text \<open>The theorem on the started agent after PUBLISH with payload \<open>HELLO\<close>: its own
  \<open>HELLO\<close> is discarded, \<open>WORLD\<close> is delivered, and NOECHO leaves the flag set.\<close>

theorem echo_suppression_on_from_start_witness:
  "p_noecho (final (ZBeaconAgent_init lan_host 5670 ''255.255.255.255'' []
                      [command 0 [''PUBLISH'', ''HELLO'']])) \<and>
   transmit (final (ZBeaconAgent_init lan_host 5670 ''255.255.255.255'' []
                      [command 0 [''PUBLISH'', ''HELLO'']])) = Some (take BEACON_MAX ''HELLO'') \<and>
   discards (recv (Datagram ''HELLO'' (''192.168.1.5'', 5670))
               (final (ZBeaconAgent_init lan_host 5670 ''255.255.255.255'' []
                         [command 0 [''PUBLISH'', ''HELLO'']])))
            (final (ZBeaconAgent_init lan_host 5670 ''255.255.255.255'' []
                      [command 0 [''PUBLISH'', ''HELLO'']])) \<and>
   passes_filter (final (ZBeaconAgent_init lan_host 5670 ''255.255.255.255'' []
                           [command 0 [''PUBLISH'', ''HELLO'']])) (take BEACON_MAX ''WORLD'') \<and>
   delivers (recv (Datagram ''WORLD'' (''192.168.1.7'', 5670))
               (final (ZBeaconAgent_init lan_host 5670 ''255.255.255.255'' []
                         [command 0 [''PUBLISH'', ''HELLO'']])))
            (final (ZBeaconAgent_init lan_host 5670 ''255.255.255.255'' []
                      [command 0 [''PUBLISH'', ''HELLO'']])) ''192.168.1.7'' ''WORLD'' \<and>
   p_noecho lan_agent \<and> p_noecho (snd (api_command [''NOECHO''] 0 lan_agent))"
proof -
  have p: "passes_filter (final (ZBeaconAgent_init lan_host 5670 ''255.255.255.255'' []
                           [command 0 [''PUBLISH'', ''HELLO'']])) (take BEACON_MAX ''WORLD'')"
    by (simp add: passes_filter_def truthy_def published_hello)
  show ?thesis
    using p
      echo_suppression_on_from_start [of lan_host 5670 "''255.255.255.255''" "[]"
        "[command 0 [''PUBLISH'', ''HELLO'']]" "''HELLO''" "(''192.168.1.5'', 5670)"
        lan_agent "[''NOECHO'']" 0]
      echo_suppression_on_from_start [of lan_host 5670 "''255.255.255.255''" "[]"
        "[command 0 [''PUBLISH'', ''HELLO'']]" "''WORLD''" "(''192.168.1.7'', 5670)"
        lan_agent "[''NOECHO'']" 0]
    by (simp add: published_hello BEACON_MAX_def lan_agent_facts)
qed

text \<open>
  C7 as stated fails: an agent started on the example host that has received PUBLISH
  with payload \<open>HELLO\<close> and no NOECHO command does not deliver a received datagram
  \<open>HELLO\<close>: the only frame on the pipe is the address report of the start-up.
\<close>

theorem echo_suppressed_without_noecho:
  "pipe_frames (trace (final (ZBeaconAgent_init lan_host 5670 ''255.255.255.255'' []
       [command 0 [''PUBLISH'', ''HELLO''], datagram 1 ''HELLO'' ''192.168.1.5''])))
     = [(''192.168.1.5'', False)]"
  unfolding lan_start lan_agent_eq by (simp add: host_defs loop_defs start_defs)

subsection \<open>Start-up with no qualifying interface\<close>

text \<open>
  C5 (as amended).  When the scan passes over every interface (none qualifies), the
  start-up is not a failure: the agent logs the error "No suitable interface found.",
  still runs the socket initialisation, writes the string \<open>None\<close> to the pipe as its
  address and enters the event loop (the outcome of the constructor is the outcome of
  the loop on the ticks to come); the caller's handle reads \<open>None\<close> as host name and no
  error is raised for it.  (The socket was created and the announce address parsed.)
\<close>

theorem startup_without_interface:
  assumes "list_all (skipped ev) (interfaces ev)" and "ip_address ev ann = Some a"
  shows "(\<exists>s'. ZBeaconAgent_init ev port ann (False # fs) ts = run_loop ev ts s'
              \<and> address s' = None
              \<and> pipe_frames (trace s') = [(''None'', False)]
              \<and> Log ERROR ''No suitable interface found.'' \<in> set (trace s')
              \<and> (Setsockopt SO_BROADCAST \<in> set (trace s')
                  \<or> Setsockopt IP_MULTICAST_TTL \<in> set (trace s')))
         \<and> hostname (ZBeaconAgent_init ev port ann (False # fs) ts) = Some ''None''"
proof -
  let ?s0 = "emit SocketNew ((new_agent port (False # fs))\<lparr>sock_fail := fs\<rparr>)"
  have c0: "sock_call SocketNew (new_agent port (False # fs)) = (Inr (), ?s0)"
    by (simp add: sock_call_def new_agent_def)
  let ?s1 = "log DEBUG ''Available interfaces: {0}'' (?s0\<lparr>announce_address := Some a\<rparr>)"
  obtain ls where ls: "scan ev (interfaces ev) ?s1 = (Inr (), ?s1\<lparr>trace := trace ?s1 @ ls\<rparr>)"
    and lsf: "pipe_frames ls = []"
    using scan_skipped[OF assms(1), of ?s1] by blast
  let ?s2 = "?s1\<lparr>trace := trace ?s1 @ ls\<rparr>"
  let ?s3 = "log ERROR ''No suitable interface found.''
               (log DEBUG ''Finished scanning interfaces.'' ?s2)"
  have a2: "address ?s2 = None" by (simp add: log_def emit_def new_agent_def)
  have f3: "pipe_frames (trace ?s3) = []"
    using lsf by (simp add: log_def emit_def new_agent_def pipe_frames_append)
  have a3: "address ?s3 = None" "announce_address ?s3 = Some a"
    by (simp_all add: log_def emit_def new_agent_def)
  have e3: "Log ERROR ''No suitable interface found.'' \<in> set (trace ?s3)"
    by (simp add: log_def emit_def)
  obtain s4 where s4: "init_socket ev ?s3 = (Inr (), s4)"
    using init_socket_returns[of ?s3 ev] a3(2) by (cases "init_socket ev ?s3") auto
  have so: "socket_only ?s3 s4" using socket_only_init_socket[of ?s3 ev] s4 by simp
  have a4: "address s4 = None" and f4: "pipe_frames (trace s4) = []"
    and p4: "prefix (trace ?s3) (trace s4)"
    using so a3(1) f3 by (simp_all add: socket_only_def)
  have e4: "Log ERROR ''No suitable interface found.'' \<in> set (trace s4)"
    using e3 p4 set_mono_prefix by blast
  have c4: "Setsockopt SO_BROADCAST \<in> set (trace s4) \<or> Setsockopt IP_MULTICAST_TTL \<in> set (trace s4)"
    using init_socket_first_call[OF a3(2), of ev] s4 by simp
  let ?s5 = "emit (PipeSend ''None'' False) s4"
  have st: "startup ev ?s1 = (Inr (), ?s5)"
    using ls a2 s4 a4 by (simp add: startup_def and_then_def py_str_def)
  let ?s6 = "log DEBUG ''ZBeacon runnning'' ?s5"
  have run: "ZBeaconAgent_init ev port ann (False # fs) ts = run_loop ev ts ?s6"
    using c0 assms(2) st by (simp add: ZBeaconAgent_init_def run_def)
  have a6: "address ?s6 = None" using a4 by (simp add: log_def emit_def)
  have f6: "pipe_frames (trace ?s6) = [(''None'', False)]"
    using f4 by (simp add: log_def emit_def pipe_frames_append)
  have e6: "Log ERROR ''No suitable interface found.'' \<in> set (trace ?s6)"
    using e4 by (simp add: log_def emit_def)
  have c6: "Setsockopt SO_BROADCAST \<in> set (trace ?s6) \<or> Setsockopt IP_MULTICAST_TTL \<in> set (trace ?s6)"
    using c4 by (simp add: log_def emit_def)
  have "prefix (pipe_frames (trace ?s6)) (pipe_frames (trace (final (run_loop ev ts ?s6))))"
    by (rule pipe_frames_prefix) (rule run_loop_grows)
  then obtain rest where "pipe_frames (trace (final (run_loop ev ts ?s6))) = (''None'', False) # rest"
    using f6 by (auto simp add: prefix_def)
  then have h: "hostname (ZBeaconAgent_init ev port ann (False # fs) ts) = Some ''None''"
    using run by (simp add: hostname_def)
  show ?thesis using run a6 f6 e6 c6 h by blast
qed

text \<open>The theorem on the host whose only interface is the loopback device.\<close>

theorem startup_without_interface_witness:
  "list_all (skipped lonely_host) (interfaces lonely_host) \<and>
   ip_address lonely_host ''255.255.255.255'' = Some (the_ip ''255.255.255.255'') \<and>
   ((\<exists>s'. ZBeaconAgent_init lonely_host 5670 ''255.255.255.255'' (False # [False, False, False, True]) [command 0 [''$TERM'']]
                = run_loop lonely_host [command 0 [''$TERM'']] s'
              \<and> address s' = None
              \<and> pipe_frames (trace s') = [(''None'', False)]
              \<and> Log ERROR ''No suitable interface found.'' \<in> set (trace s')
              \<and> (Setsockopt SO_BROADCAST \<in> set (trace s')
                  \<or> Setsockopt IP_MULTICAST_TTL \<in> set (trace s')))
         \<and> hostname (ZBeaconAgent_init lonely_host 5670 ''255.255.255.255'' (False # [False, False, False, True]) [command 0 [''$TERM'']]) = Some ''None'')"
proof -
  have h1: "list_all (skipped lonely_host) (interfaces lonely_host)"
    by (simp add: skipped_def host_defs)
  have h2: "ip_address lonely_host ''255.255.255.255'' = Some (the_ip ''255.255.255.255'')"
    by (simp add: host_defs)
  show ?thesis
    by (intro conjI h1 h2
          startup_without_interface [OF h1 h2, of 5670 "[False, False, False, True]"
            "[command 0 [''$TERM'']]"])
qed

text \<open>
  C5 as stated fails: on the host with the loopback device only, the constructor
  initialises the socket (the three \<open>setsockopt\<close> and the \<open>bind\<close>, which fails and is
  logged), reports \<open>None\<close>, enters the loop, handles the command \<open>$TERM\<close> and returns;
  no exception is raised and the caller's handle gets the host name \<open>None\<close>.
\<close>

theorem startup_continues_without_interface:
  "trace (final (ZBeaconAgent_init lonely_host 5670 ''255.255.255.255''
                   [False, False, False, False, True] [command 0 [''$TERM'']]))
     = [SocketNew, Log DEBUG ''Available interfaces: {0}'',
        Log DEBUG ''Checking out interface {0}.'',
        Log DEBUG ''Interface {0} is a loopback device.'',
        Log DEBUG ''Finished scanning interfaces.'',
        Log ERROR ''No suitable interface found.'', Setsockopt SO_BROADCAST,
        Setsockopt SO_REUSEADDR, Setsockopt SO_REUSEPORT, Bind ''None'' 5670,
        Log EXCEPTION ''Initializing of {0} raised an exception'',
        PipeSend ''None'' False, Log DEBUG ''ZBeacon runnning'',
        Poll (- 1000), PipeSend ''OK'' False, Log DEBUG ''ZBeaconAgent terminated''] \<and>
   raised (ZBeaconAgent_init lonely_host 5670 ''255.255.255.255''
                   [False, False, False, False, True] [command 0 [''$TERM'']]) = None \<and>
   hostname (ZBeaconAgent_init lonely_host 5670 ''255.255.255.255''
                   [False, False, False, False, True] [command 0 [''$TERM'']]) = Some ''None''"
  by (simp add: host_defs start_defs loop_defs hostname_def)

subsection \<open>Publishing an empty payload\<close>

text \<open>
  C10 (as amended).  PUBLISH with an empty payload stores the empty byte string, which
  the loop's test \<open>if self.transmit\<close> takes as unset: the timeout of the wait is \<open>-1\<close> (no
  timeout), and as long as no tick brings a PUBLISH with a non-empty payload, the loop
  hands no datagram to \<open>sendto\<close> and every wait in the poller is without timeout
  (\<open>-1000\<close> ms).  In sending and waiting the run is the run after SILENCE: on the same
  ticks both send the same datagrams (none), wait the same waits and end the same way.
  On the pipe the two runs write the same frames as long as no zero-length datagram is
  received.  They differ on a zero-length datagram: the stored payload is the empty byte
  string, not \<open>None\<close>, so with echo suppression on the datagram is discarded after the
  empty PUBLISH, while after SILENCE it is delivered.
\<close>

theorem empty_publish_silent_except_echo:
  assumes "list_all (\<lambda>t. \<not> nonempty_publish t) ts"
  shows "transmit (snd (api_command [''PUBLISH'', []] now s)) = Some [] \<and>
         wait_timeout now' (snd (api_command [''PUBLISH'', []] now s)) = - 1 \<and>
         datagrams (trace (final (run_loop ev ts (snd (api_command [''PUBLISH'', []] now s)))))
           = datagrams (trace s) \<and>
         (\<exists>n. polls (trace (final (run_loop ev ts (snd (api_command [''PUBLISH'', []] now s)))))
                = polls (trace s) @ replicate n (- 1000)) \<and>
         datagrams (trace (final (run_loop ev ts (snd (api_command [''PUBLISH'', []] now s)))))
           = datagrams (trace (final (run_loop ev ts (snd (api_command [''SILENCE''] now s))))) \<and>
         polls (trace (final (run_loop ev ts (snd (api_command [''PUBLISH'', []] now s)))))
           = polls (trace (final (run_loop ev ts (snd (api_command [''SILENCE''] now s))))) \<and>
         raised (run_loop ev ts (snd (api_command [''PUBLISH'', []] now s)))
           = raised (run_loop ev ts (snd (api_command [''SILENCE''] now s))) \<and>
         waiting (run_loop ev ts (snd (api_command [''PUBLISH'', []] now s)))
           = waiting (run_loop ev ts (snd (api_command [''SILENCE''] now s))) \<and>
         (list_all (\<lambda>t. \<not> empty_datagram t) ts \<longrightarrow>
            pipe_frames (trace (final (run_loop ev ts (snd (api_command [''PUBLISH'', []] now s)))))
              = pipe_frames (trace (final (run_loop ev ts (snd (api_command [''SILENCE''] now s)))))) \<and>
         (p_noecho s \<longrightarrow>
            discards (recv (Datagram [] a) (snd (api_command [''PUBLISH'', []] now s)))
                     (snd (api_command [''PUBLISH'', []] now s))) \<and>
         delivers (recv (Datagram [] a) (snd (api_command [''SILENCE''] now s)))
                  (snd (api_command [''SILENCE''] now s)) (fst a) []"
proof -
  let ?P = "s\<lparr>transmit := Some [], p_ping_at := now\<rparr>"
  let ?S = "s\<lparr>transmit := None\<rparr>"
  have P: "snd (api_command [''PUBLISH'', []] now s) = ?P"
    by (simp add: api_command_publish)
  have S: "snd (api_command [''SILENCE''] now s) = ?S"
    by (simp add: api_command_def decodable_def)
  have sil: "silent ?P ?S" by (simp add: silent_def truthy_def)
  have al: "alike ?P ?S" using sil by (simp add: alike_def)
  obtain n where n:
    "polls (trace (final (run_loop ev ts ?P))) = polls (trace ?P) @ replicate n (- 1000)"
    "polls (trace (final (run_loop ev ts ?S))) = polls (trace ?S) @ replicate n (- 1000)"
    "datagrams (trace (final (run_loop ev ts ?P))) = datagrams (trace ?P)"
    "datagrams (trace (final (run_loop ev ts ?S))) = datagrams (trace ?S)"
    "raised (run_loop ev ts ?P) = raised (run_loop ev ts ?S)"
    "waiting (run_loop ev ts ?P) = waiting (run_loop ev ts ?S)"
    using run_loop_silent[OF sil assms, of ev] by blast
  have w: "wait_timeout now' ?P = - 1" by (simp add: wait_timeout_def truthy_def)
  have e: "\<exists>n. polls (trace (final (run_loop ev ts ?P))) = polls (trace s) @ replicate n (- 1000)"
    using n(1) by auto
  have pf: "pipe_frames (trace (final (run_loop ev ts ?P)))
              = pipe_frames (trace (final (run_loop ev ts ?S)))"
    if "list_all (\<lambda>t. \<not> empty_datagram t) ts"
    using run_loop_alike[OF al assms that, of ev] by auto
  have d: "discards (recv (Datagram [] a) ?P) ?P" if "p_noecho s"
    using that
    by (simp add: recv_def discards_def Let_def truthy_def emit_def log_def pipe_frames_append)
  have v: "delivers (recv (Datagram [] a) ?S) ?S (fst a) []"
    by (simp add: recv_def delivers_def Let_def truthy_def emit_def log_def pipe_frames_append)
  show ?thesis unfolding P S using n w e pf d v by simp
qed

text \<open>The theorem on the started agent, for a datagram, a second empty PUBLISH and an
  INTERVAL command.\<close>

theorem empty_publish_silent_except_echo_witness:
  "list_all (\<lambda>t. \<not> nonempty_publish t) [datagram 2 ''HI'' ''192.168.1.7'', command 3 [''PUBLISH'', []], command 4 [''INTERVAL'', ''1000'']] \<and>
   list_all (\<lambda>t. \<not> empty_datagram t) [datagram 2 ''HI'' ''192.168.1.7'', command 3 [''PUBLISH'', []], command 4 [''INTERVAL'', ''1000'']] \<and>
   p_noecho lan_agent \<and>
   transmit (snd (api_command [''PUBLISH'', []] 0 lan_agent)) = Some [] \<and>
   wait_timeout 5 (snd (api_command [''PUBLISH'', []] 0 lan_agent)) = - 1 \<and>
   datagrams (trace (final (run_loop lan_host [datagram 2 ''HI'' ''192.168.1.7'', command 3 [''PUBLISH'', []], command 4 [''INTERVAL'', ''1000'']]
                              (snd (api_command [''PUBLISH'', []] 0 lan_agent)))))
     = datagrams (trace lan_agent) \<and>
   pipe_frames (trace (final (run_loop lan_host [datagram 2 ''HI'' ''192.168.1.7'', command 3 [''PUBLISH'', []], command 4 [''INTERVAL'', ''1000'']]
                              (snd (api_command [''PUBLISH'', []] 0 lan_agent)))))
     = pipe_frames (trace (final (run_loop lan_host [datagram 2 ''HI'' ''192.168.1.7'', command 3 [''PUBLISH'', []], command 4 [''INTERVAL'', ''1000'']]
                              (snd (api_command [''SILENCE''] 0 lan_agent))))) \<and>
   discards (recv (Datagram [] (''192.168.1.7'', 5670))
               (snd (api_command [''PUBLISH'', []] 0 lan_agent)))
            (snd (api_command [''PUBLISH'', []] 0 lan_agent)) \<and>
   delivers (recv (Datagram [] (''192.168.1.7'', 5670))
               (snd (api_command [''SILENCE''] 0 lan_agent)))
            (snd (api_command [''SILENCE''] 0 lan_agent)) (fst (''192.168.1.7'', 5670 :: nat)) []"
proof -
  have h: "list_all (\<lambda>t. \<not> nonempty_publish t) [datagram 2 ''HI'' ''192.168.1.7'', command 3 [''PUBLISH'', []], command 4 [''INTERVAL'', ''1000'']]"
    by (simp add: nonempty_publish_def host_defs)
  have g: "list_all (\<lambda>t. \<not> empty_datagram t) [datagram 2 ''HI'' ''192.168.1.7'', command 3 [''PUBLISH'', []], command 4 [''INTERVAL'', ''1000'']]"
    by (simp add: empty_datagram_def host_defs)
  have k: "p_noecho lan_agent" by (simp add: lan_agent_facts)
  show ?thesis
    using h g k
      empty_publish_silent_except_echo [OF h, of 0 lan_agent 5 lan_host "(''192.168.1.7'', 5670)"]
    by blast
qed

text \<open>
  C10 as stated fails: the empty PUBLISH does not behave exactly like SILENCE.  On the
  started agent, a zero-length datagram received after PUBLISH with an empty payload is
  not delivered (the pipe holds the address report only); the same datagram received
  after SILENCE is delivered.
\<close>

theorem empty_publish_is_not_silence:
  "pipe_frames (trace (final (ZBeaconAgent_init lan_host 5670 ''255.255.255.255'' []
       [command 0 [''PUBLISH'', []], datagram 1 [] ''192.168.1.7''])))
     = [(''192.168.1.5'', False)] \<and>
   pipe_frames (trace (final (ZBeaconAgent_init lan_host 5670 ''255.255.255.255'' []
       [command 0 [''SILENCE''], datagram 1 [] ''192.168.1.7''])))
     = [(''192.168.1.5'', False), (''192.168.1.7'', True), ([], False)]"
  unfolding lan_start lan_agent_eq by (simp add: host_defs loop_defs start_defs)

end
